theory Spec2Isabelle
  imports Main "HOL-Library.AList"
begin

section \<open>URL normalizer (src/url-parser.ts)\<close>

text \<open>
  JavaScript strings are modelled as \<open>string\<close>, one \<open>char\<close> per code unit; only code
  units below 256 are representable, which covers every character the patterns of
  \<^verbatim>\<open>url-parser.ts\<close> mention.
\<close>

record ParsedGitHubUrl =
  owner :: string
  repo :: string
  key :: string
  url :: string

text \<open>
  \<^verbatim>\<open>String.prototype.trim\<close> strips white space and line terminators from both ends:
  TAB, LF, VT, FF, CR, SPACE and NBSP are the ones below 256.
\<close>

definition is_ws :: "char \<Rightarrow> bool" where
  "is_ws c \<longleftrightarrow> c \<in> set [CHR 0x09, CHR 0x0A, CHR 0x0B, CHR 0x0C, CHR 0x0D, CHR 0x20, CHR 0xA0]"

definition trim :: "string \<Rightarrow> string" where
  "trim s = rev (dropWhile is_ws (rev (dropWhile is_ws s)))"

text \<open>The regular-expression dot matches every code unit except a line terminator.\<close>

definition is_line_terminator :: "char \<Rightarrow> bool" where
  "is_line_terminator c \<longleftrightarrow> c = CHR 0x0A \<or> c = CHR 0x0D"

definition is_alnum :: "char \<Rightarrow> bool" where
  "is_alnum c \<longleftrightarrow>
     (let n = (of_char c :: nat)
      in (97 \<le> n \<and> n \<le> 122) \<or> (65 \<le> n \<and> n \<le> 90) \<or> (48 \<le> n \<and> n \<le> 57))"

text \<open>The character classes \<^verbatim>\<open>[a-zA-Z0-9_-]\<close> and \<^verbatim>\<open>[a-zA-Z0-9._-]\<close>.\<close>

definition is_owner_char :: "char \<Rightarrow> bool" where
  "is_owner_char c \<longleftrightarrow> is_alnum c \<or> c = CHR ''_'' \<or> c = CHR ''-''"

definition is_repo_char :: "char \<Rightarrow> bool" where
  "is_repo_char c \<longleftrightarrow> is_alnum c \<or> c = CHR ''.'' \<or> c = CHR ''_'' \<or> c = CHR ''-''"

text \<open>\<open>strip_prefix pre s\<close> is what follows the literal \<open>pre\<close> at the start of \<open>s\<close>.\<close>

definition strip_prefix :: "string \<Rightarrow> string \<Rightarrow> string option" where
  "strip_prefix pre s = (if take (length pre) s = pre then Some (drop (length pre) s) else None)"

text \<open>
  The common tail \<^verbatim>\<open>([^\/]+)\/(.+?)(\.git)?$\<close> of the HTTPS and the SSH pattern.
  The first group is greedy over non-slashes and must be followed by a slash, so it is the
  text before the first slash. The second group is lazy: the engine tries the shortest
  candidate first and accepts as soon as what remains is \<^verbatim>\<open>.git\<close> or nothing, so a
  trailing \<^verbatim>\<open>.git\<close> is cut off whenever at least one character stays in front of it.
\<close>

definition match_owner_repo :: "string \<Rightarrow> (string \<times> string) option" where
  "match_owner_repo rest =
     (let ow = takeWhile (\<lambda>c. c \<noteq> CHR ''/'') rest;
          after = dropWhile (\<lambda>c. c \<noteq> CHR ''/'') rest
      in if ow = [] then None
         else (case after of
                 [] \<Rightarrow> None
               | _ # tail \<Rightarrow>
                   if tail = [] \<or> list_ex is_line_terminator tail then None
                   else if 4 < length tail \<and> drop (length tail - 4) tail = ''.git''
                        then Some (ow, take (length tail - 4) tail)
                        else Some (ow, tail)))"

text \<open>\<^verbatim>\<open>/^https?:\/\/github\.com\/([^\/]+)\/(.+?)(\.git)?$/\<close>\<close>

definition httpsPattern :: "string \<Rightarrow> (string \<times> string) option" where
  "httpsPattern s =
     (case strip_prefix ''https://github.com/'' s of
        Some rest \<Rightarrow> match_owner_repo rest
      | None \<Rightarrow>
          (case strip_prefix ''http://github.com/'' s of
             Some rest \<Rightarrow> match_owner_repo rest
           | None \<Rightarrow> None))"

text \<open>\<^verbatim>\<open>/^git@github\.com:([^\/]+)\/(.+?)(\.git)?$/\<close>\<close>

definition sshPattern :: "string \<Rightarrow> (string \<times> string) option" where
  "sshPattern s =
     (case strip_prefix ''git@github.com:'' s of
        Some rest \<Rightarrow> match_owner_repo rest
      | None \<Rightarrow> None)"

text \<open>\<^verbatim>\<open>/^([a-zA-Z0-9_-]+)\/([a-zA-Z0-9._-]+)$/\<close>\<close>

definition shorthandPattern :: "string \<Rightarrow> (string \<times> string) option" where
  "shorthandPattern s =
     (let ow = takeWhile is_owner_char s;
          after = dropWhile is_owner_char s
      in if ow = [] then None
         else (case after of
                 [] \<Rightarrow> None
               | c # rp \<Rightarrow>
                   if c = CHR ''/'' \<and> rp \<noteq> [] \<and> list_all is_repo_char rp
                   then Some (ow, rp) else None))"

definition mk_parsed :: "string \<Rightarrow> string \<Rightarrow> ParsedGitHubUrl" where
  "mk_parsed ow rp =
     \<lparr> owner = ow, repo = rp, key = ow @ ''/'' @ rp,
       url = ''https://github.com/'' @ ow @ ''/'' @ rp @ ''.git'' \<rparr>"

definition parseGitHubUrl :: "string \<Rightarrow> ParsedGitHubUrl option" where
  "parseGitHubUrl input =
     (let trimmed = trim input
      in case httpsPattern trimmed of
           Some (ow, rp) \<Rightarrow> Some (mk_parsed ow rp)
         | None \<Rightarrow>
             (case sshPattern trimmed of
                Some (ow, rp) \<Rightarrow> Some (mk_parsed ow rp)
              | None \<Rightarrow>
                  (case shorthandPattern trimmed of
                     Some (ow, rp) \<Rightarrow> Some (mk_parsed ow rp)
                   | None \<Rightarrow> None)))"

text \<open>
  \<^verbatim>\<open>validateGitHubNames\<close>: the owner matches
  \<^verbatim>\<open>^[a-zA-Z0-9]([a-zA-Z0-9-]{0,37}[a-zA-Z0-9])?$\<close>, the repository name matches
  \<^verbatim>\<open>^[a-zA-Z0-9._-]+$\<close>.
\<close>

definition validateGitHubNames :: "string \<Rightarrow> string \<Rightarrow> bool" where
  "validateGitHubNames ow rp \<longleftrightarrow>
     (let ownerValid =
            (ow \<noteq> [] \<and> length ow \<le> 39 \<and> is_alnum (hd ow) \<and> is_alnum (last ow)
             \<and> list_all (\<lambda>c. is_alnum c \<or> c = CHR ''-'') ow);
          repoValid = (rp \<noteq> [] \<and> list_all is_repo_char rp)
      in ownerValid \<and> repoValid)"

text \<open>
  The three input shapes as the specification words them, independent of the matcher
  above: a web URL \<^verbatim>\<open>http(s)://github.com/<owner>/<repo>[.git]\<close> whose owner is the first
  path segment, an SSH remote \<^verbatim>\<open>git@github.com:<owner>/<repo>[.git]\<close>, and the shorthand
  \<^verbatim>\<open><owner>/<repo>\<close> over the two character classes.
\<close>

definition web_url_shape :: "string \<Rightarrow> bool" where
  "web_url_shape s \<longleftrightarrow>
     (\<exists>ow rp. ow \<noteq> [] \<and> CHR ''/'' \<notin> set ow \<and> rp \<noteq> [] \<and>
        (s = ''https://github.com/'' @ ow @ ''/'' @ rp \<or>
         s = ''http://github.com/'' @ ow @ ''/'' @ rp))"

definition ssh_remote_shape :: "string \<Rightarrow> bool" where
  "ssh_remote_shape s \<longleftrightarrow>
     (\<exists>ow rp. ow \<noteq> [] \<and> CHR ''/'' \<notin> set ow \<and> rp \<noteq> [] \<and>
        s = ''git@github.com:'' @ ow @ ''/'' @ rp)"

definition shorthand_shape :: "string \<Rightarrow> bool" where
  "shorthand_shape s \<longleftrightarrow>
     (\<exists>ow rp. ow \<noteq> [] \<and> list_all is_owner_char ow \<and> rp \<noteq> [] \<and> list_all is_repo_char rp \<and>
        s = ow @ ''/'' @ rp)"

definition recognized_shape :: "string \<Rightarrow> bool" where
  "recognized_shape s \<longleftrightarrow> web_url_shape s \<or> ssh_remote_shape s \<or> shorthand_shape s"

section \<open>Metadata store (src/metadata-manager.ts)\<close>

record RepoMetadata =
  key :: string
  url :: string
  path :: string
  clonedAt :: int
  lastAccessed :: int
  size_bytes :: "int option"

text \<open>
  What a metadata file can hold: nothing (no such file), text that is not JSON, JSON that is
  not an array, or an array of records. The global file and the project file live at
  different paths (\<^verbatim>\<open>~/.config/opencode/...\<close> and \<^verbatim>\<open><projectDir>/.opencode/...\<close>: the
  directory that holds the file is \<^verbatim>\<open>opencode\<close> for the one and \<^verbatim>\<open>.opencode\<close> for the other), so
  the world keeps one slot for each.
\<close>

datatype json_file = Missing | Unparseable | NotArray | Entries "RepoMetadata list"

datatype scope = GlobalFile | ProjectFile

text \<open>
  A directory on disk, as far as \<^verbatim>\<open>validateClone\<close> can observe it: whether it contains
  \<^verbatim>\<open>.git\<close>, and what \<^verbatim>\<open>find <path> -maxdepth 1 -type f\<close> prints (\<open>None\<close> when the
  command exits with an error, which the shell turns into an exception).
\<close>

record artifact =
  git_dir :: bool
  find_stdout :: "string option"

text \<open>The calls made to the outside, in the order they are made.\<close>

datatype event =
  RmRf string
  | GitClone int string string
  | WriteFile scope "RepoMetadata list"

text \<open>
  The world: the two metadata files, the directories that exist, by path, and the trace.
  A directory is looked up by the string that the code passes. The hierarchy of the file
  system shows where it matters to the code: \<^verbatim>\<open>rm -rf\<close> removes its target under every
  spelling and what lies beneath it, the metadata files included (see \<open>rm_rf\<close> below),
  and \<^verbatim>\<open>mkdir\<close> creates the missing parents. Symbolic links are not modelled.
\<close>

record world =
  global_file :: json_file
  project_file :: json_file
  dirs :: "string \<Rightarrow> artifact option"
  trace :: "event list"

text \<open>
  The behaviour of the external collaborators during one call: the clock; whether
  \<^verbatim>\<open>rm -rf\<close> succeeds on a path and, when it fails, what it has left of each directory and
  of each metadata file beneath that path (a removal that fails may have removed a part
  already); whether \<^verbatim>\<open>mkdir\<close> succeeds and, when it fails, which parents it has made;
  whether writing a metadata file succeeds; and what \<^verbatim>\<open>git clone --depth d url path\<close>
  does: it succeeds and leaves an artifact, or it fails and leaves whatever it leaves at
  the target.
\<close>

datatype clone_outcome = CloneOk artifact | CloneFail "artifact option"

record env =
  now :: int
  rm_ok :: "string \<Rightarrow> bool"
  rm_left :: "string \<Rightarrow> string \<Rightarrow> artifact \<Rightarrow> artifact option"
  rm_left_file :: "string \<Rightarrow> scope \<Rightarrow> bool"
  mkdir_ok :: "string \<Rightarrow> bool"
  mkdir_made :: "string \<Rightarrow> string \<Rightarrow> bool"
  write_ok :: "scope \<Rightarrow> RepoMetadata list \<Rightarrow> bool"
  clone_result :: "int \<Rightarrow> string \<Rightarrow> string \<Rightarrow> clone_outcome"

datatype error =
  InvalidGitHubUrl string
  | InvalidNames string
  | RmFailed string
  | MkdirFailed string
  | GitCloneFailed string
  | SaveFailed scope
  | FailedToClone string error

type_synonym 'a io = "world \<Rightarrow> (error + 'a) \<times> world"

definition io_return :: "'a \<Rightarrow> 'a io" where
  "io_return x w = (Inr x, w)"

definition io_bind :: "'a io \<Rightarrow> ('a \<Rightarrow> 'b io) \<Rightarrow> 'b io" where
  "io_bind f g w = (case f w of (Inl e, w') \<Rightarrow> (Inl e, w') | (Inr x, w') \<Rightarrow> g x w')"

record MetadataManager =
  globalMetadataPath :: string
  projectMetadataPath :: "string option"

definition read_file :: "scope \<Rightarrow> world \<Rightarrow> json_file" where
  "read_file sc w = (case sc of GlobalFile \<Rightarrow> global_file w | ProjectFile \<Rightarrow> project_file w)"

definition write_file :: "scope \<Rightarrow> json_file \<Rightarrow> world \<Rightarrow> world" where
  "write_file sc f w =
     (case sc of GlobalFile \<Rightarrow> w\<lparr>global_file := f\<rparr> | ProjectFile \<Rightarrow> w\<lparr>project_file := f\<rparr>)"

text \<open>
  \<^verbatim>\<open>loadFromPath\<close>: a missing file, a file whose parsing throws (the exception is caught
  and logged) and a JSON value that is not an array all give the empty list.
\<close>

definition loadFromPath :: "scope \<Rightarrow> world \<Rightarrow> RepoMetadata list" where
  "loadFromPath sc w =
     (case read_file sc w of
        Missing \<Rightarrow> []
      | Unparseable \<Rightarrow> []
      | NotArray \<Rightarrow> []
      | Entries data \<Rightarrow> data)"

text \<open>
  \<^verbatim>\<open>merged.set(repo.key, repo)\<close> on a JavaScript \<^verbatim>\<open>Map\<close>, which keeps insertion order: an
  existing key keeps its position and takes the new value, a new key goes to the end.
\<close>

definition Map_set :: "(string \<times> RepoMetadata) list \<Rightarrow> RepoMetadata \<Rightarrow> (string \<times> RepoMetadata) list" where
  "Map_set merged r = AList.update (key r) r merged"

definition load :: "MetadataManager \<Rightarrow> world \<Rightarrow> RepoMetadata list" where
  "load m w =
     (let globalData = loadFromPath GlobalFile w
      in case projectMetadataPath m of
           None \<Rightarrow> globalData
         | Some _ \<Rightarrow>
             (let projectData = loadFromPath ProjectFile w;
                  merged = foldl Map_set (foldl Map_set [] globalData) projectData
              in map snd merged))"

text \<open>
  \<^verbatim>\<open>saveToPath\<close>: creating the directory and writing the file either both succeed or an
  exception is logged and thrown again; a failed write is taken to leave the file as it was.
\<close>

definition saveToPath :: "env \<Rightarrow> scope \<Rightarrow> RepoMetadata list \<Rightarrow> unit io" where
  "saveToPath e sc md w =
     (let w1 = w\<lparr>trace := trace w @ [WriteFile sc md]\<rparr>
      in if write_ok e sc md then (Inr (), write_file sc (Entries md) w1)
         else (Inl (SaveFailed sc), w1))"

definition save :: "MetadataManager \<Rightarrow> env \<Rightarrow> RepoMetadata list \<Rightarrow> bool \<Rightarrow> unit io" where
  "save m e md useProject =
     (let targetPath = (if useProject \<and> projectMetadataPath m \<noteq> None then ProjectFile else GlobalFile)
      in saveToPath e targetPath md)"

definition findByKey :: "MetadataManager \<Rightarrow> string \<Rightarrow> world \<Rightarrow> RepoMetadata option" where
  "findByKey m k w = find (\<lambda>r. key r = k) (load m w)"

text \<open>\<^verbatim>\<open>Array.prototype.findIndex\<close>: the first index whose element satisfies \<open>P\<close>, or \<open>-1\<close>.\<close>

fun findIndex :: "('a \<Rightarrow> bool) \<Rightarrow> 'a list \<Rightarrow> int" where
  "findIndex P [] = -1"
| "findIndex P (x # xs) =
     (if P x then 0 else (let i = findIndex P xs in if i < 0 then -1 else i + 1))"

definition upsert :: "MetadataManager \<Rightarrow> env \<Rightarrow> RepoMetadata \<Rightarrow> bool \<Rightarrow> unit io" where
  "upsert m e r useProject w =
     (let all = load m w;
          index = findIndex (\<lambda>x. key x = key r) all;
          all' = (if index \<ge> 0 then all[nat index := r] else all @ [r])
      in save m e all' useProject w)"

definition remove_key :: "MetadataManager \<Rightarrow> env \<Rightarrow> string \<Rightarrow> bool \<Rightarrow> unit io" where
  "remove_key m e k useProject w =
     (let all = load m w;
          filtered = filter (\<lambda>r. key r \<noteq> k) all
      in save m e filtered useProject w)"

text \<open>
  \<^verbatim>\<open>all.sort((a, b) => a.lastAccessed - b.lastAccessed)\<close>; the sort of JavaScript is
  stable, and so is \<open>sort_key\<close>.
\<close>

definition getSortedByLRU :: "MetadataManager \<Rightarrow> world \<Rightarrow> RepoMetadata list" where
  "getSortedByLRU m w = sort_key lastAccessed (load m w)"

section \<open>Cache lifecycle manager (src/clone-manager.ts)\<close>

record GitHubExplorerConfig =
  maxClonedRepos :: int
  cloneDirectory :: string
  autoCleanupDays :: int
  cloneDepth :: int
  excludePatterns :: "string list"

record CloneManager =
  config :: GitHubExplorerConfig
  metadata :: MetadataManager

text \<open>
  \<^verbatim>\<open>path.join\<close> of \<^verbatim>\<open>node:path\<close> (POSIX): the non-empty arguments are joined with slashes
  and the result is normalised. Normalising drops empty segments and \<^verbatim>\<open>.\<close> segments,
  lets a \<^verbatim>\<open>..\<close> segment cancel the segment before it (above the start of a relative path
  it stays, above the root it is dropped), keeps a leading slash and a trailing slash,
  and gives \<^verbatim>\<open>.\<close> for an empty result.
\<close>

fun split_slash :: "string \<Rightarrow> string list" where
  "split_slash [] = [[]]"
| "split_slash (c # cs) =
     (if c = CHR ''/'' then [] # split_slash cs
      else (case split_slash cs of [] \<Rightarrow> [[c]] | x # xs \<Rightarrow> (c # x) # xs))"

fun join_slash :: "string list \<Rightarrow> string" where
  "join_slash [] = []"
| "join_slash [s] = s"
| "join_slash (s # ss) = s @ ''/'' @ join_slash ss"

text \<open>\<open>normalize_segs up acc segs\<close>: \<open>acc\<close> holds the segments kept so far, the last one first.\<close>

fun normalize_segs :: "bool \<Rightarrow> string list \<Rightarrow> string list \<Rightarrow> string list" where
  "normalize_segs up acc [] = rev acc"
| "normalize_segs up acc (s # ss) =
     (if s = [] \<or> s = ''.'' then normalize_segs up acc ss
      else if s = ''..'' then
        (case acc of
           [] \<Rightarrow> normalize_segs up (if up then [''..''] else []) ss
         | a # acc' \<Rightarrow>
             if a = ''..'' then normalize_segs up (if up then ''..'' # acc else acc) ss
             else normalize_segs up acc' ss)
      else normalize_segs up (s # acc) ss)"

definition normalize :: "string \<Rightarrow> string" where
  "normalize p =
     (if p = [] then ''.''
      else (let isAbsolute = (hd p = CHR ''/'');
                trailingSeparator = (last p = CHR ''/'');
                s = join_slash (normalize_segs (\<not> isAbsolute) [] (split_slash p))
            in if s = [] then (if isAbsolute then ''/'' else if trailingSeparator then ''./'' else ''.'')
               else (if isAbsolute then ''/'' else []) @ s @ (if trailingSeparator then ''/'' else [])))"

definition path_join :: "string list \<Rightarrow> string" where
  "path_join args =
     (let joined = join_slash (filter (\<lambda>a. a \<noteq> []) args)
      in if joined = [] then ''.'' else normalize joined)"

text \<open>
  \<open>under p q\<close>: the path \<open>q\<close> names \<open>p\<close> or something beneath the directory \<open>p\<close>. Both
  paths are resolved as far as their spelling allows: normalised, and without a trailing
  slash. Then \<open>q\<close> is \<open>p\<close>, or continues \<open>p\<close> after a slash; every absolute path is under
  the root, and every relative path that does not climb is under \<^verbatim>\<open>.\<close>.
\<close>

definition resolve :: "string \<Rightarrow> string" where
  "resolve p =
     (let n = normalize p
      in if 1 < length n \<and> last n = CHR ''/'' then butlast n else n)"

definition under :: "string \<Rightarrow> string \<Rightarrow> bool" where
  "under p q \<longleftrightarrow>
     (let p' = resolve p; q' = resolve q
      in q' = p' \<or>
         (if p' = ''/'' then take 1 q' = ''/''
          else if p' = ''.'' then take 1 q' \<noteq> ''/'' \<and> q' \<noteq> ''..'' \<and> take 3 q' \<noteq> ''../''
          else take (length p' + 1) q' = p' @ ''/''))"

text \<open>Whether the metadata file of a scope is \<open>p\<close> or lies beneath \<open>p\<close>.\<close>

definition holds_file :: "MetadataManager \<Rightarrow> string \<Rightarrow> scope \<Rightarrow> bool" where
  "holds_file m p sc =
     (case sc of
        GlobalFile \<Rightarrow> under p (globalMetadataPath m)
      | ProjectFile \<Rightarrow> (case projectMetadataPath m of None \<Rightarrow> False | Some pp \<Rightarrow> under p pp))"

text \<open>
  \<^verbatim>\<open>rm -rf p\<close>. When it succeeds, nothing is left of \<open>p\<close> and of what lies beneath it: no
  directory, and no metadata file of the manager \<open>m\<close> if it was there. When it fails (the
  shell then throws), the collaborators say what it has left of them; nothing outside
  \<open>p\<close> is touched either way.
\<close>

definition rm_rf :: "MetadataManager \<Rightarrow> env \<Rightarrow> string \<Rightarrow> unit io" where
  "rm_rf m e p w =
     (let w1 = w\<lparr>trace := trace w @ [RmRf p]\<rparr>
      in if rm_ok e p
         then (Inr (),
               w1\<lparr>dirs := (\<lambda>q. if under p q then None else dirs w q),
                  global_file := (if holds_file m p GlobalFile then Missing else global_file w),
                  project_file := (if holds_file m p ProjectFile then Missing else project_file w)\<rparr>)
         else (Inl (RmFailed p),
               w1\<lparr>dirs := (\<lambda>q. if under p q
                                then (case dirs w q of None \<Rightarrow> None | Some a \<Rightarrow> rm_left e p q a)
                                else dirs w q),
                  global_file :=
                    (if holds_file m p GlobalFile \<and> \<not> rm_left_file e p GlobalFile
                     then Missing else global_file w),
                  project_file :=
                    (if holds_file m p ProjectFile \<and> \<not> rm_left_file e p ProjectFile
                     then Missing else project_file w)\<rparr>))"

definition git_clone :: "env \<Rightarrow> int \<Rightarrow> string \<Rightarrow> string \<Rightarrow> unit io" where
  "git_clone e depth u p w =
     (let w1 = w\<lparr>trace := trace w @ [GitClone depth u p]\<rparr>
      in case clone_result e depth u p of
           CloneOk a \<Rightarrow> (Inr (), w1\<lparr>dirs := (dirs w1)(p \<mapsto> a)\<rparr>)
         | CloneFail left \<Rightarrow> (Inl (GitCloneFailed u), w1\<lparr>dirs := (dirs w1)(p := left)\<rparr>))"

definition existsSync :: "world \<Rightarrow> string \<Rightarrow> bool" where
  "existsSync w p \<longleftrightarrow> dirs w p \<noteq> None"

definition validateClone :: "world \<Rightarrow> string \<Rightarrow> bool" where
  "validateClone w p =
     (case dirs w p of
        None \<Rightarrow> False
      | Some a \<Rightarrow>
          if \<not> git_dir a then False
          else (case find_stdout a of
                  None \<Rightarrow> False
                | Some out \<Rightarrow> length (trim out) > 0))"

definition updateLastAccessed :: "CloneManager \<Rightarrow> env \<Rightarrow> string \<Rightarrow> unit io" where
  "updateLastAccessed cm e k w =
     (case findByKey (metadata cm) k w of
        None \<Rightarrow> (Inr (), w)
      | Some r \<Rightarrow> upsert (metadata cm) e (r\<lparr>lastAccessed := now e\<rparr>) False w)"

definition deleteRepo :: "CloneManager \<Rightarrow> env \<Rightarrow> string \<Rightarrow> unit io" where
  "deleteRepo cm e k w =
     (case findByKey (metadata cm) k w of
        None \<Rightarrow> (Inr (), w)
      | Some r \<Rightarrow>
          io_bind (if existsSync w (path r) then rm_rf (metadata cm) e (path r) else io_return ())
            (\<lambda>_. remove_key (metadata cm) e k False) w)"

text \<open>The body of the \<^verbatim>\<open>for\<close> loops of \<^verbatim>\<open>cleanupLRU\<close> and \<^verbatim>\<open>cleanupStale\<close>.\<close>

fun deleteRepos :: "CloneManager \<Rightarrow> env \<Rightarrow> string list \<Rightarrow> unit io" where
  "deleteRepos cm e [] w = (Inr (), w)"
| "deleteRepos cm e (k # ks) w =
     (case deleteRepo cm e k w of
        (Inl err, w') \<Rightarrow> (Inl err, w')
      | (Inr _, w') \<Rightarrow> deleteRepos cm e ks w')"

definition cleanupLRU :: "CloneManager \<Rightarrow> env \<Rightarrow> int \<Rightarrow> unit io" where
  "cleanupLRU cm e count w =
     (let sorted = getSortedByLRU (metadata cm) w;
          n = nat (min count (int (length sorted)))
      in deleteRepos cm e (map key (take n sorted)) w)"


definition ensureCapacity :: "CloneManager \<Rightarrow> env \<Rightarrow> unit io" where
  "ensureCapacity cm e w =
     (let all = load (metadata cm) w
      in if int (length all) \<ge> maxClonedRepos (config cm)
         then cleanupLRU cm e (int (length all) - maxClonedRepos (config cm) + 1) w
         else (Inr (), w))"

text \<open>
  \<^verbatim>\<open>mkdir(path, { recursive: true })\<close> makes the directory and its missing parents, all of
  them empty; the parents of a path are what stands before each of its slashes. When it
  fails, the directory is not made, and the collaborators say which parents were.
\<close>

definition empty_dir :: artifact where
  "empty_dir = \<lparr> git_dir = False, find_stdout = Some [] \<rparr>"

fun parents_from :: "string \<Rightarrow> string \<Rightarrow> string list" where
  "parents_from pre [] = []"
| "parents_from pre (c # cs) =
     (if c = CHR ''/'' \<and> pre \<noteq> [] then [pre] else []) @ parents_from (pre @ [c]) cs"

definition parent_paths :: "string \<Rightarrow> string list" where
  "parent_paths p = parents_from [] p"

definition mkdir_p :: "env \<Rightarrow> string \<Rightarrow> unit io" where
  "mkdir_p e p w =
     (if mkdir_ok e p
      then (Inr (),
            w\<lparr>dirs := (\<lambda>q. if (q = p \<or> q \<in> set (parent_paths p)) \<and> dirs w q = None
                            then Some empty_dir else dirs w q)\<rparr>)
      else (Inl (MkdirFailed p),
            w\<lparr>dirs := (\<lambda>q. if q \<in> set (parent_paths p) \<and> dirs w q = None \<and> mkdir_made e p q
                            then Some empty_dir else dirs w q)\<rparr>))"

definition ensureDirectory :: "env \<Rightarrow> string \<Rightarrow> unit io" where
  "ensureDirectory e p w = (if \<not> existsSync w p then mkdir_p e p w else (Inr (), w))"

text \<open>The body of the \<^verbatim>\<open>try\<close> block of \<^verbatim>\<open>cloneRepo\<close>.\<close>

definition cloneRepo_try :: "CloneManager \<Rightarrow> env \<Rightarrow> ParsedGitHubUrl \<Rightarrow> string \<Rightarrow> string io" where
  "cloneRepo_try cm e parsed repoPath =
     io_bind (ensureDirectory e (cloneDirectory (config cm))) (\<lambda>_.
     io_bind (ensureDirectory e (path_join [cloneDirectory (config cm), owner parsed])) (\<lambda>_.
     io_bind (git_clone e (cloneDepth (config cm)) (ParsedGitHubUrl.url parsed) repoPath) (\<lambda>_.
     io_bind (upsert (metadata cm) e
                \<lparr> key = ParsedGitHubUrl.key parsed, url = ParsedGitHubUrl.url parsed,
                  path = repoPath, clonedAt = now e, lastAccessed = now e,
                  size_bytes = None \<rparr> False) (\<lambda>_.
     io_return repoPath))))"

text \<open>
  \<^verbatim>\<open>cloneRepo\<close> from \<^verbatim>\<open>ensureCapacity\<close> on: the capacity check, the \<^verbatim>\<open>try\<close> block and its
  \<^verbatim>\<open>catch\<close> handler, which removes the target if it exists and throws the wrapped error.
\<close>

definition cloneRepo_fetch :: "CloneManager \<Rightarrow> env \<Rightarrow> ParsedGitHubUrl \<Rightarrow> string io" where
  "cloneRepo_fetch cm e parsed =
     io_bind (ensureCapacity cm e) (\<lambda>_ w1.
       (let repoPath = path_join [cloneDirectory (config cm), owner parsed, repo parsed]
        in case cloneRepo_try cm e parsed repoPath w1 of
             (Inr p, w2) \<Rightarrow> (Inr p, w2)
           | (Inl err, w2) \<Rightarrow>
               io_bind (if existsSync w2 repoPath then rm_rf (metadata cm) e repoPath
                        else io_return ())
                 (\<lambda>_ w3. (Inl (FailedToClone (ParsedGitHubUrl.key parsed) err), w3)) w2))"

definition cloneRepo :: "CloneManager \<Rightarrow> env \<Rightarrow> string \<Rightarrow> string io" where
  "cloneRepo cm e urlInput w =
     (case parseGitHubUrl urlInput of
        None \<Rightarrow> (Inl (InvalidGitHubUrl urlInput), w)
      | Some parsed \<Rightarrow>
          if \<not> validateGitHubNames (owner parsed) (repo parsed)
          then (Inl (InvalidNames (ParsedGitHubUrl.key parsed)), w)
          else (case findByKey (metadata cm) (ParsedGitHubUrl.key parsed) w of
                  Some existing \<Rightarrow>
                    if validateClone w (path existing)
                    then io_bind (updateLastAccessed cm e (ParsedGitHubUrl.key parsed))
                           (\<lambda>_. io_return (path existing)) w
                    else io_bind (deleteRepo cm e (ParsedGitHubUrl.key parsed))
                           (\<lambda>_. cloneRepo_fetch cm e parsed) w
                | None \<Rightarrow> cloneRepo_fetch cm e parsed w))"

text \<open>
  The constructors. \<^verbatim>\<open>homedir()\<close> is the parameter \<open>home\<close>; an absent or empty project
  directory gives no project scope; \<^verbatim>\<open>expandPath\<close> replaces a leading \<^verbatim>\<open>~/\<close> by the home
  directory and leaves every other path as it is written.
\<close>

definition new_MetadataManager :: "string \<Rightarrow> string option \<Rightarrow> MetadataManager" where
  "new_MetadataManager home projectDir =
     \<lparr> globalMetadataPath =
         path_join [home, ''.config'', ''opencode'', ''github-explorer-metadata.json''],
       projectMetadataPath =
         (case projectDir of
            None \<Rightarrow> None
          | Some d \<Rightarrow>
              if d = [] then None
              else Some (path_join [d, ''.opencode'', ''github-explorer-metadata.json''])) \<rparr>"

definition expandPath :: "string \<Rightarrow> string \<Rightarrow> string" where
  "expandPath home p = (if take 2 p = ''~/'' then path_join [home, drop 2 p] else p)"

definition new_CloneManager ::
  "string \<Rightarrow> GitHubExplorerConfig \<Rightarrow> string option \<Rightarrow> CloneManager" where
  "new_CloneManager home cfg projectDir =
     \<lparr> config = cfg\<lparr>cloneDirectory := expandPath home (cloneDirectory cfg)\<rparr>,
       metadata = new_MetadataManager home projectDir \<rparr>"

text \<open>\<^verbatim>\<open>listRepos\<close>\<close>

definition listRepos :: "CloneManager \<Rightarrow> world \<Rightarrow> RepoMetadata list" where
  "listRepos cm w = load (metadata cm) w"

section \<open>Auxiliary notions for the proofs\<close>

text \<open>What the two \<^verbatim>\<open>forEach\<close> loops of \<^verbatim>\<open>load\<close> compute from the concatenated collections.\<close>

definition merge_by_key :: "RepoMetadata list \<Rightarrow> RepoMetadata list" where
  "merge_by_key xs = map snd (foldl Map_set [] xs)"

text \<open>The entry that \<^verbatim>\<open>upsert\<close> writes: replaced in place, or appended.\<close>

definition upsert_list :: "RepoMetadata list \<Rightarrow> RepoMetadata \<Rightarrow> RepoMetadata list" where
  "upsert_list all r =
     (let index = findIndex (\<lambda>x. key x = key r) all
      in if index \<ge> 0 then all[nat index := r] else all @ [r])"

text \<open>The events that a step added to the trace.\<close>

definition new_events :: "world \<Rightarrow> world \<Rightarrow> event list" where
  "new_events w w' = drop (length (trace w)) (trace w')"

text \<open>\<open>evolves Q w w'\<close>: from \<open>w\<close> to \<open>w'\<close> the trace grew by events that all satisfy \<open>Q\<close>.\<close>

definition evolves :: "(event \<Rightarrow> bool) \<Rightarrow> world \<Rightarrow> world \<Rightarrow> bool" where
  "evolves Q w w' \<longleftrightarrow> (\<exists>evs. trace w' = trace w @ evs \<and> (\<forall>ev \<in> set evs. Q ev))"

text \<open>Events of a deletion: removals and writes of the global file, no fetch.\<close>

fun eviction_event :: "event \<Rightarrow> bool" where
  "eviction_event (RmRf p) = True"
| "eviction_event (GitClone d u p) = False"
| "eviction_event (WriteFile sc md) = (sc = GlobalFile)"

text \<open>Events of any lifecycle operation: whatever it is, it does not write the project file.\<close>

fun lifecycle_event :: "event \<Rightarrow> bool" where
  "lifecycle_event (WriteFile sc md) = (sc = GlobalFile)"
| "lifecycle_event ev = True"

text \<open>
  \<open>shrinks m w w'\<close>: no key was added to the merged store and no directory appeared.
\<close>

definition shrinks :: "MetadataManager \<Rightarrow> world \<Rightarrow> world \<Rightarrow> bool" where
  "shrinks m w w' \<longleftrightarrow>
     key ` set (load m w') \<subseteq> key ` set (load m w) \<and>
     (\<forall>q. dirs w' q \<noteq> None \<longrightarrow> dirs w q \<noteq> None)"

text \<open>
  \<open>project_kept m w w'\<close>: the project file is what it was, or it is gone and one of the new
  events is a removal of the file or of a directory that holds it.
\<close>

definition project_kept :: "MetadataManager \<Rightarrow> world \<Rightarrow> world \<Rightarrow> bool" where
  "project_kept m w w' \<longleftrightarrow>
     project_file w' = project_file w \<or>
     (project_file w' = Missing \<and>
      (\<exists>p. RmRf p \<in> set (new_events w w') \<and> holds_file m p ProjectFile))"

text \<open>
  \<open>grows w w'\<close>: from \<open>w\<close> to \<open>w'\<close> nothing happened but that empty directories were made
  where there was nothing.
\<close>

definition grows :: "world \<Rightarrow> world \<Rightarrow> bool" where
  "grows w w' \<longleftrightarrow>
     trace w' = trace w \<and> global_file w' = global_file w \<and> project_file w' = project_file w \<and>
     (\<forall>q. dirs w' q = dirs w q \<or> (dirs w q = None \<and> dirs w' q = Some empty_dir))"

text \<open>
  The steps that a lifecycle operation is made of: a removal, the making of a directory,
  a fetch, and the two writes of the store, which put into the global file the merged
  collection of that moment without a key, or with a record replaced or appended. A run
  is a sequence of steps, each from the world the one before has left.
\<close>

datatype action =
  Remove env string
  | MakeDir env string
  | Fetch env int string string
  | WriteWithout env string
  | WriteWith env RepoMetadata

fun act :: "MetadataManager \<Rightarrow> action \<Rightarrow> world \<Rightarrow> world" where
  "act m (Remove e p) w = snd (rm_rf m e p w)"
| "act m (MakeDir e p) w = snd (ensureDirectory e p w)"
| "act m (Fetch e d u p) w = snd (git_clone e d u p w)"
| "act m (WriteWithout e k) w =
     snd (saveToPath e GlobalFile (filter (\<lambda>x. key x \<noteq> k) (load m w)) w)"
| "act m (WriteWith e r) w = snd (saveToPath e GlobalFile (upsert_list (load m w) r) w)"


definition run :: "MetadataManager \<Rightarrow> action list \<Rightarrow> world \<Rightarrow> world" where
  "run m as w = foldl (\<lambda>w' a. act m a w') w as"


section \<open>Concrete configurations for the examples\<close>

definition ex_config :: "int \<Rightarrow> GitHubExplorerConfig" where
  "ex_config n = \<lparr> maxClonedRepos = n, cloneDirectory = ''/c'', autoCleanupDays = 7,
                   cloneDepth = 1, excludePatterns = [] \<rparr>"

text \<open>A manager with capacity \<open>n\<close>, with or without a project directory.\<close>

definition ex_manager :: "int \<Rightarrow> bool \<Rightarrow> CloneManager" where
  "ex_manager n proj =
     \<lparr> config = ex_config n,
       metadata =
         \<lparr> globalMetadataPath = ''/home/.config/opencode/github-explorer-metadata.json'',
           projectMetadataPath =
             (if proj then Some ''/proj/.opencode/github-explorer-metadata.json'' else None) \<rparr> \<rparr>"

definition ex_entry :: "string \<Rightarrow> string \<Rightarrow> int \<Rightarrow> RepoMetadata" where
  "ex_entry k p t = \<lparr> key = k, url = ''https://github.com/'' @ k @ ''.git'', path = p,
                      clonedAt = t, lastAccessed = t, size_bytes = None \<rparr>"

text \<open>A clone that validates, and the clone of a repository with no file at its root.\<close>

definition ex_artifact :: artifact where
  "ex_artifact = \<lparr> git_dir = True, find_stdout = Some ''README.md'' \<rparr>"

definition ex_bare_artifact :: artifact where
  "ex_bare_artifact = \<lparr> git_dir = True, find_stdout = Some [] \<rparr>"

text \<open>Collaborators that all succeed at time \<open>t\<close>; \<^verbatim>\<open>git clone\<close> leaves the artifact \<open>a\<close>.\<close>

definition ex_env :: "int \<Rightarrow> artifact \<Rightarrow> env" where
  "ex_env t a = \<lparr> now = t, rm_ok = (\<lambda>_. True), rm_left = (\<lambda>_ _ x. Some x),
                 rm_left_file = (\<lambda>_ _. True), mkdir_ok = (\<lambda>_. True),
                 mkdir_made = (\<lambda>_ _. False), write_ok = (\<lambda>_ _. True),
                 clone_result = (\<lambda>_ _ _. CloneOk a) \<rparr>"

definition ex_world :: "json_file \<Rightarrow> json_file \<Rightarrow> (string \<Rightarrow> artifact option) \<Rightarrow> world" where
  "ex_world g p ds = \<lparr> global_file = g, project_file = p, dirs = ds, trace = [] \<rparr>"

text \<open>
  Five stores: an empty one; one global record \<^verbatim>\<open>o/a\<close> with its clone on disk; the same
  record held by the project file instead; a project record \<^verbatim>\<open>o/a\<close> whose clone, at
  another path, is gone; and the same stale record held by the global file.
\<close>

definition ex_empty :: world where
  "ex_empty = ex_world Missing Missing (\<lambda>_. None)"

definition ex_global_a :: world where
  "ex_global_a =
     ex_world (Entries [ex_entry ''o/a'' ''/c/o/a'' 1]) Missing
       ((\<lambda>_. None)(''/c/o/a'' \<mapsto> ex_artifact))"

definition ex_project_a :: world where
  "ex_project_a =
     ex_world Missing (Entries [ex_entry ''o/a'' ''/c/o/a'' 1])
       ((\<lambda>_. None)(''/c/o/a'' \<mapsto> ex_artifact))"

definition ex_project_stale :: world where
  "ex_project_stale =
     ex_world Missing (Entries [ex_entry ''o/a'' ''/old/o/a'' 1]) (\<lambda>_. None)"

definition ex_global_stale :: world where
  "ex_global_stale =
     ex_world (Entries [ex_entry ''o/a'' ''/old/o/a'' 1]) Missing (\<lambda>_. None)"





section \<open>Proofs\<close>

lemma trim_id: "s \<noteq> [] \<Longrightarrow> \<not> is_ws (hd s) \<Longrightarrow> \<not> is_ws (last s) \<Longrightarrow> trim s = s"
proof -
  assume a: "s \<noteq> []" "\<not> is_ws (hd s)" "\<not> is_ws (last s)"
  from a have 1: "dropWhile is_ws s = s" by (cases s) auto
  from a have "rev s \<noteq> []" "\<not> is_ws (hd (rev s))" by (auto simp: hd_rev)
  then have 2: "dropWhile is_ws (rev s) = rev s" by (cases "rev s") auto
  show ?thesis by (simp add: trim_def 1 2)
qed

lemma owner_char_not_ws: "is_owner_char c \<Longrightarrow> \<not> is_ws c"
  by (auto simp: is_owner_char_def is_ws_def is_alnum_def Let_def)

lemma repo_char_not_ws: "is_repo_char c \<Longrightarrow> \<not> is_ws c"
  by (auto simp: is_repo_char_def is_ws_def is_alnum_def Let_def)

lemma owner_char_not_slash: "is_owner_char c \<Longrightarrow> c \<noteq> CHR ''/''"
  by (auto simp: is_owner_char_def is_alnum_def Let_def)

lemma repo_char_not_slash: "is_repo_char c \<Longrightarrow> c \<noteq> CHR ''/''"
  by (auto simp: is_repo_char_def is_alnum_def Let_def)

lemma repo_char_not_lt: "is_repo_char c \<Longrightarrow> \<not> is_line_terminator c"
  by (auto simp: is_repo_char_def is_line_terminator_def is_alnum_def Let_def)

lemma split_at_slash:
  assumes "CHR ''/'' \<notin> set ow"
  shows "takeWhile (\<lambda>c. c \<noteq> CHR ''/'') (ow @ CHR ''/'' # t) = ow"
    and "dropWhile (\<lambda>c. c \<noteq> CHR ''/'') (ow @ CHR ''/'' # t) = CHR ''/'' # t"
  using assms by (induction ow) auto

lemma match_owner_repo_plain:
  assumes "ow \<noteq> []" "CHR ''/'' \<notin> set ow" "rp \<noteq> []" "\<not> list_ex is_line_terminator rp"
    and "\<not> (4 < length rp \<and> drop (length rp - 4) rp = ''.git'')"
  shows "match_owner_repo (ow @ ''/'' @ rp) = Some (ow, rp)"
  using assms by (auto simp add: match_owner_repo_def split_at_slash Let_def)

lemma match_owner_repo_git:
  assumes "ow \<noteq> []" "CHR ''/'' \<notin> set ow" "rp \<noteq> []" "\<not> list_ex is_line_terminator rp"
  shows "match_owner_repo (ow @ ''/'' @ rp @ ''.git'') = Some (ow, rp)"
  using assms by (simp add: match_owner_repo_def split_at_slash Let_def is_line_terminator_def)

lemma strip_prefix_append: "strip_prefix pre (pre @ s) = Some s"
  by (simp add: strip_prefix_def)

lemma list_all_owner_no_slash: "list_all is_owner_char ow \<Longrightarrow> CHR ''/'' \<notin> set ow"
  by (auto simp: list_all_iff dest: owner_char_not_slash)

lemma list_all_repo_no_lt: "list_all is_repo_char rp \<Longrightarrow> \<not> list_ex is_line_terminator rp"
  by (auto simp: list_all_iff list_ex_iff dest: repo_char_not_lt)

lemma trim_forms:
  assumes "rp \<noteq> []" "list_all is_repo_char rp" "\<not> is_ws (hd (pre @ ow))" "pre @ ow \<noteq> []"
  shows "trim (pre @ ow @ ''/'' @ rp) = pre @ ow @ ''/'' @ rp"
    and "trim (pre @ ow @ ''/'' @ rp @ ''.git'') = pre @ ow @ ''/'' @ rp @ ''.git''"
proof -
  have l: "\<not> is_ws (last rp)" using assms(1,2) by (auto simp: list_all_iff dest: repo_char_not_ws)
  have h: "hd (pre @ ow @ ''/'' @ rp) = hd (pre @ ow)" "hd (pre @ ow @ ''/'' @ rp @ ''.git'') = hd (pre @ ow)"
    using assms(4) by (cases pre; cases ow; simp)+
  show "trim (pre @ ow @ ''/'' @ rp) = pre @ ow @ ''/'' @ rp"
    by (rule trim_id) (use assms l h in auto)
  show "trim (pre @ ow @ ''/'' @ rp @ ''.git'') = pre @ ow @ ''/'' @ rp @ ''.git''"
    by (rule trim_id) (use assms h in \<open>auto simp: is_ws_def\<close>)
qed

lemma shorthand_chars:
  assumes "list_all is_owner_char ow" "list_all is_repo_char rp" "c \<in> set (ow @ ''/'' @ rp)"
  shows "c \<noteq> CHR '':'' \<and> c \<noteq> CHR ''@''"
  using assms by (auto simp: list_all_iff is_owner_char_def is_repo_char_def is_alnum_def Let_def)

lemma strip_prefix_shorthand:
  assumes "list_all is_owner_char ow" "list_all is_repo_char rp" "CHR '':'' \<in> set pre"
  shows "strip_prefix pre (ow @ ''/'' @ rp) = None"
proof -
  have "take (length pre) (ow @ ''/'' @ rp) \<noteq> pre"
  proof
    assume e: "take (length pre) (ow @ ''/'' @ rp) = pre"
    have "set (take (length pre) (ow @ ''/'' @ rp)) \<subseteq> set (ow @ ''/'' @ rp)" by (rule set_take_subset)
    with e assms(3) have "CHR '':'' \<in> set (ow @ ''/'' @ rp)" by auto
    with shorthand_chars[OF assms(1,2)] show False by blast
  qed
  then show ?thesis by (simp add: strip_prefix_def)
qed

lemma shorthandPattern_ok:
  assumes "ow \<noteq> []" "list_all is_owner_char ow" "rp \<noteq> []" "list_all is_repo_char rp"
  shows "shorthandPattern (ow @ ''/'' @ rp) = Some (ow, rp)"
proof -
  have n: "\<not> is_owner_char (CHR ''/'')" using owner_char_not_slash by blast
  have t: "takeWhile is_owner_char (ow @ CHR ''/'' # rp) = ow"
    using assms(2) n by (induction ow) auto
  have d: "dropWhile is_owner_char (ow @ CHR ''/'' # rp) = CHR ''/'' # rp"
    using assms(2) n by (induction ow) auto
  show ?thesis using assms by (simp add: shorthandPattern_def t d)
qed


lemma httpsPattern_forms:
  assumes "ow \<noteq> []" "list_all is_owner_char ow" "rp \<noteq> []" "list_all is_repo_char rp"
  shows "\<not> (4 < length rp \<and> drop (length rp - 4) rp = ''.git'') \<Longrightarrow>
           httpsPattern (''https://github.com/'' @ ow @ ''/'' @ rp) = Some (ow, rp)"
    and "httpsPattern (''https://github.com/'' @ ow @ ''/'' @ rp @ ''.git'') = Some (ow, rp)"
    and "\<not> (4 < length rp \<and> drop (length rp - 4) rp = ''.git'') \<Longrightarrow>
           httpsPattern (''http://github.com/'' @ ow @ ''/'' @ rp) = Some (ow, rp)"
    and "httpsPattern (''http://github.com/'' @ ow @ ''/'' @ rp @ ''.git'') = Some (ow, rp)"
    and "httpsPattern (''git@github.com:'' @ ow @ ''/'' @ rp) = None"
    and "httpsPattern (''git@github.com:'' @ ow @ ''/'' @ rp @ ''.git'') = None"
    and "httpsPattern (ow @ ''/'' @ rp) = None"
proof -
  note ns = list_all_owner_no_slash[OF assms(2)] list_all_repo_no_lt[OF assms(4)]
  have g: "match_owner_repo (ow @ ''/'' @ rp @ ''.git'') = Some (ow, rp)"
    using assms ns by (intro match_owner_repo_git) auto
  have h: "strip_prefix ''https://github.com/'' (''http://github.com/'' @ x) = None" for x
    by (simp add: strip_prefix_def)
  have k: "strip_prefix ''http://github.com/'' (''http://github.com/'' @ x) = Some x" for x
    by (simp add: strip_prefix_def)
  have k2: "strip_prefix ''https://github.com/'' (''https://github.com/'' @ x) = Some x" for x
    by (simp add: strip_prefix_def)
  show "httpsPattern (''https://github.com/'' @ ow @ ''/'' @ rp @ ''.git'') = Some (ow, rp)"
    unfolding httpsPattern_def k2 using g by simp
  show "httpsPattern (''http://github.com/'' @ ow @ ''/'' @ rp @ ''.git'') = Some (ow, rp)"
    unfolding httpsPattern_def h k using g by simp
  show "httpsPattern (''git@github.com:'' @ ow @ ''/'' @ rp) = None"
    by (simp add: httpsPattern_def strip_prefix_def)
  show "httpsPattern (''git@github.com:'' @ ow @ ''/'' @ rp @ ''.git'') = None"
    by (simp add: httpsPattern_def strip_prefix_def)
  show "httpsPattern (ow @ ''/'' @ rp) = None"
    unfolding httpsPattern_def
    using strip_prefix_shorthand[OF assms(2,4), of "''https://github.com/''"]
      strip_prefix_shorthand[OF assms(2,4), of "''http://github.com/''"] by simp
  {
    assume n: "\<not> (4 < length rp \<and> drop (length rp - 4) rp = ''.git'')"
    have m: "match_owner_repo (ow @ ''/'' @ rp) = Some (ow, rp)"
      using assms ns n by (intro match_owner_repo_plain) auto
    show "httpsPattern (''https://github.com/'' @ ow @ ''/'' @ rp) = Some (ow, rp)"
      unfolding httpsPattern_def k2 using m by simp
    show "httpsPattern (''http://github.com/'' @ ow @ ''/'' @ rp) = Some (ow, rp)"
      unfolding httpsPattern_def h k using m by simp
  }
qed

lemma sshPattern_forms:
  assumes "ow \<noteq> []" "list_all is_owner_char ow" "rp \<noteq> []" "list_all is_repo_char rp"
  shows "\<not> (4 < length rp \<and> drop (length rp - 4) rp = ''.git'') \<Longrightarrow>
           sshPattern (''git@github.com:'' @ ow @ ''/'' @ rp) = Some (ow, rp)"
    and "sshPattern (''git@github.com:'' @ ow @ ''/'' @ rp @ ''.git'') = Some (ow, rp)"
    and "sshPattern (ow @ ''/'' @ rp) = None"
proof -
  note ns = list_all_owner_no_slash[OF assms(2)] list_all_repo_no_lt[OF assms(4)]
  have k: "strip_prefix ''git@github.com:'' (''git@github.com:'' @ x) = Some x" for x
    by (simp add: strip_prefix_def)
  have g: "match_owner_repo (ow @ ''/'' @ rp @ ''.git'') = Some (ow, rp)"
    using assms ns by (intro match_owner_repo_git) auto
  show "sshPattern (''git@github.com:'' @ ow @ ''/'' @ rp @ ''.git'') = Some (ow, rp)"
    unfolding sshPattern_def k using g by simp
  show "sshPattern (ow @ ''/'' @ rp) = None"
    unfolding sshPattern_def
    using strip_prefix_shorthand[OF assms(2,4), of "''git@github.com:''"] by simp
  {
    assume n: "\<not> (4 < length rp \<and> drop (length rp - 4) rp = ''.git'')"
    have m: "match_owner_repo (ow @ ''/'' @ rp) = Some (ow, rp)"
      using assms ns n by (intro match_owner_repo_plain) auto
    show "sshPattern (''git@github.com:'' @ ow @ ''/'' @ rp) = Some (ow, rp)"
      unfolding sshPattern_def k using m by simp
  }
qed

lemma strip_prefix_SomeD: "strip_prefix pre s = Some rest \<Longrightarrow> s = pre @ rest"
  by (auto simp: strip_prefix_def split: if_splits) (metis append_take_drop_id)

lemma match_owner_repo_SomeD:
  assumes "match_owner_repo rest = Some (ow, rp)"
  shows "\<exists>ow' rp'. ow' \<noteq> [] \<and> CHR ''/'' \<notin> set ow' \<and> rp' \<noteq> [] \<and> rest = ow' @ ''/'' @ rp'"
proof -
  let ?P = "\<lambda>c. c \<noteq> CHR ''/''"
  from assms obtain c tail where d: "dropWhile ?P rest = c # tail" and ne: "takeWhile ?P rest \<noteq> []"
    and t: "tail \<noteq> []"
    by (auto simp: match_owner_repo_def Let_def split: if_splits list.splits)
  have "\<not> ?P (hd (dropWhile ?P rest))" by (rule hd_dropWhile) (simp add: d)
  then have c: "c = CHR ''/''" by (simp add: d)
  have "rest = takeWhile ?P rest @ dropWhile ?P rest" by simp
  then have r: "rest = takeWhile ?P rest @ ''/'' @ tail" using d c by simp
  have "CHR ''/'' \<notin> set (takeWhile ?P rest)" by (auto dest: set_takeWhileD)
  with ne t r show ?thesis by blast
qed

lemma httpsPattern_shape:
  assumes "httpsPattern s = Some (ow, rp)"
  shows "web_url_shape s"
proof -
  from assms consider rest where "s = ''https://github.com/'' @ rest" "match_owner_repo rest = Some (ow, rp)"
    | rest where "s = ''http://github.com/'' @ rest" "match_owner_repo rest = Some (ow, rp)"
    unfolding httpsPattern_def by (auto split: option.splits dest: strip_prefix_SomeD)
  then show ?thesis
  proof cases
    case 1
    from match_owner_repo_SomeD[OF 1(2)] 1(1) show ?thesis unfolding web_url_shape_def by blast
  next
    case 2
    from match_owner_repo_SomeD[OF 2(2)] 2(1) show ?thesis unfolding web_url_shape_def by blast
  qed
qed

lemma sshPattern_shape:
  assumes "sshPattern s = Some (ow, rp)"
  shows "ssh_remote_shape s"
proof -
  from assms obtain rest where 1: "s = ''git@github.com:'' @ rest" "match_owner_repo rest = Some (ow, rp)"
    unfolding sshPattern_def by (auto split: option.splits dest: strip_prefix_SomeD)
  from match_owner_repo_SomeD[OF 1(2)] 1(1) show ?thesis unfolding ssh_remote_shape_def by blast
qed

lemma shorthandPattern_shape:
  assumes "shorthandPattern s = Some (ow, rp)"
  shows "shorthand_shape s"
proof -
  from assms have ow: "ow = takeWhile is_owner_char s" "ow \<noteq> []"
    and d: "dropWhile is_owner_char s = CHR ''/'' # rp" and rp: "rp \<noteq> []" "list_all is_repo_char rp"
    by (auto simp: shorthandPattern_def Let_def split: if_splits list.splits)
  have "s = takeWhile is_owner_char s @ dropWhile is_owner_char s" by simp
  then have "s = ow @ ''/'' @ rp" using ow d by simp
  moreover have "list_all is_owner_char ow" unfolding ow(1) list_all_iff by (auto dest: set_takeWhileD)
  ultimately show ?thesis unfolding shorthand_shape_def using ow(2) rp by blast
qed

lemma parseGitHubUrl_Some_shape:
  assumes "parseGitHubUrl input = Some p"
  shows "recognized_shape (trim input)"
proof -
  from assms consider ow rp where "httpsPattern (trim input) = Some (ow, rp)"
    | ow rp where "sshPattern (trim input) = Some (ow, rp)"
    | ow rp where "shorthandPattern (trim input) = Some (ow, rp)"
    unfolding parseGitHubUrl_def Let_def by (auto split: option.splits)
  then show ?thesis unfolding recognized_shape_def
    by cases (auto dest: httpsPattern_shape sshPattern_shape shorthandPattern_shape)
qed

lemma shorthand_shape_chars:
  "shorthand_shape s \<Longrightarrow> CHR ''/'' \<in> set s \<and> (\<forall>c \<in> set s. c = CHR ''/'' \<or> is_owner_char c \<or> is_repo_char c)"
  unfolding shorthand_shape_def by (auto simp: list_all_iff)

lemma colon_space_chars:
  "\<not> is_owner_char (CHR '':'')" "\<not> is_repo_char (CHR '':'')"
  "\<not> is_owner_char (CHR 0x20)" "\<not> is_repo_char (CHR 0x20)"
  by (simp_all add: is_owner_char_def is_repo_char_def is_alnum_def)

lemma not_web_examples:
  "\<not> web_url_shape ''not-a-url''" "\<not> web_url_shape ''''"
  "\<not> web_url_shape ''https://gitlab.com/a/b''" "\<not> web_url_shape '' a/b''"
  unfolding web_url_shape_def by simp_all

lemma not_ssh_examples:
  "\<not> ssh_remote_shape ''not-a-url''" "\<not> ssh_remote_shape ''''"
  "\<not> ssh_remote_shape ''https://gitlab.com/a/b''" "\<not> ssh_remote_shape '' a/b''"
  unfolding ssh_remote_shape_def by simp_all

lemma not_shorthand_examples:
  "\<not> shorthand_shape ''not-a-url''" "\<not> shorthand_shape ''''"
  "\<not> shorthand_shape ''https://gitlab.com/a/b''" "\<not> shorthand_shape '' a/b''"
proof -
  show "\<not> shorthand_shape ''not-a-url''" using shorthand_shape_chars[of "''not-a-url''"] by auto
  show "\<not> shorthand_shape ''''" using shorthand_shape_chars[of "''''"] by auto
  show "\<not> shorthand_shape ''https://gitlab.com/a/b''"
  proof
    assume "shorthand_shape ''https://gitlab.com/a/b''"
    then have "\<forall>c \<in> set ''https://gitlab.com/a/b''. c = CHR ''/'' \<or> is_owner_char c \<or> is_repo_char c"
      by (rule shorthand_shape_chars[THEN conjunct2])
    moreover have "CHR '':'' \<in> set ''https://gitlab.com/a/b''" by simp
    ultimately have "CHR '':'' = CHR ''/'' \<or> is_owner_char (CHR '':'') \<or> is_repo_char (CHR '':'')"
      by (rule bspec)
    then show False by (simp add: colon_space_chars)
  qed
  show "\<not> shorthand_shape '' a/b''"
  proof
    assume "shorthand_shape '' a/b''"
    then have "\<forall>c \<in> set '' a/b''. c = CHR ''/'' \<or> is_owner_char c \<or> is_repo_char c"
      by (rule shorthand_shape_chars[THEN conjunct2])
    moreover have "CHR 0x20 \<in> set '' a/b''" by simp
    ultimately have "CHR 0x20 = CHR ''/'' \<or> is_owner_char (CHR 0x20) \<or> is_repo_char (CHR 0x20)"
      by (rule bspec)
    then show False by (simp add: colon_space_chars)
  qed
qed

lemma not_shape_examples:
  "\<not> recognized_shape ''not-a-url''" "\<not> recognized_shape ''''"
  "\<not> recognized_shape ''https://gitlab.com/a/b''" "\<not> recognized_shape '' a/b''"
  unfolding recognized_shape_def
  by (simp_all add: not_web_examples not_ssh_examples not_shorthand_examples)

lemma trim_ex1: "trim ''not-a-url'' = ''not-a-url''" "trim '''' = ''''"
   "trim ''https://gitlab.com/a/b'' = ''https://gitlab.com/a/b''" "trim '' a/b'' = ''a/b''"
  by (simp_all add: trim_def is_ws_def)

lemma parse_space: "parseGitHubUrl '' a/b'' = Some (mk_parsed ''a'' ''b'')"
  by (simp add: parseGitHubUrl_def trim_ex1 httpsPattern_def sshPattern_def strip_prefix_def
      shorthandPattern_def is_owner_char_def is_repo_char_def is_alnum_def)

lemma parse_xgit: "parseGitHubUrl ''https://github.com/o/x.git'' = Some (mk_parsed ''o'' ''x'')"
   "parseGitHubUrl ''o/x.git'' = Some (mk_parsed ''o'' ''x.git'')"
  by (simp_all add: parseGitHubUrl_def trim_def is_ws_def httpsPattern_def sshPattern_def strip_prefix_def
      shorthandPattern_def is_owner_char_def is_repo_char_def is_alnum_def match_owner_repo_def
      is_line_terminator_def)

lemma parse_forms:
  assumes "ow \<noteq> []" "list_all is_owner_char ow" "rp \<noteq> []" "list_all is_repo_char rp"
    and "\<not> (4 < length rp \<and> drop (length rp - 4) rp = ''.git'')"
  defines "canonical \<equiv> Some \<lparr> owner = ow, repo = rp, key = ow @ ''/'' @ rp,
                                url = ''https://github.com/'' @ ow @ ''/'' @ rp @ ''.git'' \<rparr>"
  shows "parseGitHubUrl (''https://github.com/'' @ ow @ ''/'' @ rp) = canonical"
    and "parseGitHubUrl (''https://github.com/'' @ ow @ ''/'' @ rp @ ''.git'') = canonical"
    and "parseGitHubUrl (''http://github.com/'' @ ow @ ''/'' @ rp) = canonical"
    and "parseGitHubUrl (''http://github.com/'' @ ow @ ''/'' @ rp @ ''.git'') = canonical"
    and "parseGitHubUrl (''git@github.com:'' @ ow @ ''/'' @ rp) = canonical"
    and "parseGitHubUrl (''git@github.com:'' @ ow @ ''/'' @ rp @ ''.git'') = canonical"
    and "parseGitHubUrl (ow @ ''/'' @ rp) = canonical"
proof -
  have w: "\<not> is_ws (hd ow)" using assms(1,2) by (cases ow) (auto dest: owner_char_not_ws)
  have t1: "trim (pre @ ow @ ''/'' @ rp) = pre @ ow @ ''/'' @ rp"
    and t2: "trim (pre @ ow @ ''/'' @ rp @ ''.git'') = pre @ ow @ ''/'' @ rp @ ''.git''"
    if "pre = [] \<or> \<not> is_ws (hd pre)" for pre
    using that trim_forms[of rp pre ow] assms(1,3,4) w by (cases pre; simp)+
  have p: "\<not> is_ws (hd ''https://github.com/'')" "\<not> is_ws (hd ''http://github.com/'')"
    "\<not> is_ws (hd ''git@github.com:'')" by (simp_all add: is_ws_def)
  note h = httpsPattern_forms[OF assms(1-4)] and s = sshPattern_forms[OF assms(1-4)]
  have c: "canonical = Some (mk_parsed ow rp)" by (simp add: canonical_def mk_parsed_def)
  show "parseGitHubUrl (''https://github.com/'' @ ow @ ''/'' @ rp) = canonical"
    unfolding c parseGitHubUrl_def Let_def t1[of "''https://github.com/''", OF disjI2, OF p(1)]
    using h(1)[OF assms(5)] by simp
  show "parseGitHubUrl (''https://github.com/'' @ ow @ ''/'' @ rp @ ''.git'') = canonical"
    unfolding c parseGitHubUrl_def Let_def t2[of "''https://github.com/''", OF disjI2, OF p(1)]
    using h(2) by simp
  show "parseGitHubUrl (''http://github.com/'' @ ow @ ''/'' @ rp) = canonical"
    unfolding c parseGitHubUrl_def Let_def t1[of "''http://github.com/''", OF disjI2, OF p(2)]
    using h(3)[OF assms(5)] by simp
  show "parseGitHubUrl (''http://github.com/'' @ ow @ ''/'' @ rp @ ''.git'') = canonical"
    unfolding c parseGitHubUrl_def Let_def t2[of "''http://github.com/''", OF disjI2, OF p(2)]
    using h(4) by simp
  show "parseGitHubUrl (''git@github.com:'' @ ow @ ''/'' @ rp) = canonical"
    unfolding c parseGitHubUrl_def Let_def t1[of "''git@github.com:''", OF disjI2, OF p(3)]
    using h(5) s(1)[OF assms(5)] by simp
  show "parseGitHubUrl (''git@github.com:'' @ ow @ ''/'' @ rp @ ''.git'') = canonical"
    unfolding c parseGitHubUrl_def Let_def t2[of "''git@github.com:''", OF disjI2, OF p(3)]
    using h(6) s(2) by simp
  show "parseGitHubUrl (ow @ ''/'' @ rp) = canonical"
    unfolding c parseGitHubUrl_def Let_def using t1[of "[]"] h(7) s(3) shorthandPattern_ok[OF assms(1-4)]
    by simp
qed

text \<open>
  Claim C7, as amended. For every owner over \<^verbatim>\<open>[A-Za-z0-9_-]\<close> and every repository name
  over \<^verbatim>\<open>[A-Za-z0-9._-]\<close> (both non-empty) that does not itself end in \<^verbatim>\<open>.git\<close> behind at
  least one more character, the web URL with and without a trailing \<^verbatim>\<open>.git\<close> (under
  \<^verbatim>\<open>https\<close> and under \<^verbatim>\<open>http\<close>), the SSH remote with and without a trailing \<^verbatim>\<open>.git\<close>, and
  the shorthand all parse to the same record: owner and repository as written, the key
  \<^verbatim>\<open>owner/repo\<close> and the URL \<^verbatim>\<open>https://github.com/owner/repo.git\<close>.
\<close>

theorem parseGitHubUrl_forms_agree:
  assumes "ow \<noteq> []" "list_all is_owner_char ow" "rp \<noteq> []" "list_all is_repo_char rp"
    and "\<not> (4 < length rp \<and> drop (length rp - 4) rp = ''.git'')"
  shows "\<forall>input \<in> set [''https://github.com/'' @ ow @ ''/'' @ rp,
                       ''https://github.com/'' @ ow @ ''/'' @ rp @ ''.git'',
                       ''http://github.com/'' @ ow @ ''/'' @ rp,
                       ''http://github.com/'' @ ow @ ''/'' @ rp @ ''.git'',
                       ''git@github.com:'' @ ow @ ''/'' @ rp,
                       ''git@github.com:'' @ ow @ ''/'' @ rp @ ''.git'',
                       ow @ ''/'' @ rp].
           parseGitHubUrl input =
             Some \<lparr> owner = ow, repo = rp, key = ow @ ''/'' @ rp,
                    url = ''https://github.com/'' @ ow @ ''/'' @ rp @ ''.git'' \<rparr>"
  using parse_forms[OF assms] by simp

theorem parseGitHubUrl_forms_agree_witness:
  "parseGitHubUrl ''https://github.com/octocat/Hello-World'' =
     Some \<lparr> owner = ''octocat'', repo = ''Hello-World'', key = ''octocat/Hello-World'',
            url = ''https://github.com/octocat/Hello-World.git'' \<rparr>
   \<and> parseGitHubUrl ''git@github.com:octocat/Hello-World.git'' =
     Some \<lparr> owner = ''octocat'', repo = ''Hello-World'', key = ''octocat/Hello-World'',
            url = ''https://github.com/octocat/Hello-World.git'' \<rparr>
   \<and> parseGitHubUrl ''octocat/Hello-World'' =
     Some \<lparr> owner = ''octocat'', repo = ''Hello-World'', key = ''octocat/Hello-World'',
            url = ''https://github.com/octocat/Hello-World.git'' \<rparr>"
proof -
  have a: "''octocat'' \<noteq> []" "list_all is_owner_char ''octocat''"
    "''Hello-World'' \<noteq> []" "list_all is_repo_char ''Hello-World''"
    "\<not> (4 < length ''Hello-World'' \<and> drop (length ''Hello-World'' - 4) ''Hello-World'' = ''.git'')"
    by (simp_all add: is_owner_char_def is_repo_char_def is_alnum_def)
  show ?thesis
    using parseGitHubUrl_forms_agree[OF a] by simp
qed

text \<open>
  Claim C7 as stated fails for a repository name that ends in \<^verbatim>\<open>.git\<close>: for owner \<^verbatim>\<open>o\<close> and
  repository \<^verbatim>\<open>x.git\<close> the web URL without a further suffix loses the last four characters,
  while the shorthand keeps them; \<^verbatim>\<open>validateGitHubNames\<close> accepts both names.
\<close>

theorem parseGitHubUrl_git_suffix_counterexample:
  "parseGitHubUrl (''https://github.com/'' @ ''o'' @ ''/'' @ ''x.git'') =
     Some \<lparr> owner = ''o'', repo = ''x'', key = ''o/x'', url = ''https://github.com/o/x.git'' \<rparr>
   \<and> parseGitHubUrl (''o'' @ ''/'' @ ''x.git'') =
     Some \<lparr> owner = ''o'', repo = ''x.git'', key = ''o/x.git'',
            url = ''https://github.com/o/x.git.git'' \<rparr>
   \<and> validateGitHubNames ''o'' ''x.git''"
  using parse_xgit
  by (simp add: mk_parsed_def validateGitHubNames_def is_alnum_def is_repo_char_def)

text \<open>
  Claim C8, as amended. An input that, once the surrounding white space is trimmed, has
  none of the three shapes of the specification (web URL on \<^verbatim>\<open>github.com\<close>, SSH remote on
  \<^verbatim>\<open>github.com\<close>, shorthand) parses to no result; the function is total, so it never throws.
  In particular \<^verbatim>\<open>not-a-url\<close>, the empty string and \<^verbatim>\<open>https://gitlab.com/a/b\<close> give no result.
\<close>

theorem parseGitHubUrl_unrecognized:
  "(\<not> recognized_shape (trim input) \<longrightarrow> parseGitHubUrl input = None)
   \<and> parseGitHubUrl ''not-a-url'' = None
   \<and> parseGitHubUrl '''' = None
   \<and> parseGitHubUrl ''https://gitlab.com/a/b'' = None"
proof -
  have g: "\<not> recognized_shape (trim i) \<Longrightarrow> parseGitHubUrl i = None" for i
    using parseGitHubUrl_Some_shape[of i] by (cases "parseGitHubUrl i") auto
  show ?thesis
    using g[of input] g[of "''not-a-url''"] g[of "''''"] g[of "''https://gitlab.com/a/b''"]
    by (simp add: trim_ex1 not_shape_examples)
qed

theorem parseGitHubUrl_unrecognized_witness:
  "\<not> recognized_shape (trim ''invalid-url'') \<and> parseGitHubUrl ''invalid-url'' = None"
proof -
  have t: "trim ''invalid-url'' = ''invalid-url''" by (simp add: trim_def is_ws_def)
  have "\<not> web_url_shape ''invalid-url''" unfolding web_url_shape_def by simp
  moreover have "\<not> ssh_remote_shape ''invalid-url''" unfolding ssh_remote_shape_def by simp
  moreover have "\<not> shorthand_shape ''invalid-url''"
    using shorthand_shape_chars[of "''invalid-url''"] by auto
  ultimately have n: "\<not> recognized_shape (trim ''invalid-url'')"
    by (simp add: t recognized_shape_def)
  with parseGitHubUrl_unrecognized[of "''invalid-url''"] show ?thesis by simp
qed

text \<open>
  Claim C8 as stated fails for an input with surrounding white space: \<^verbatim>\<open>" a/b"\<close> has none of
  the three shapes, since a space is in neither character class and starts neither
  prefix, yet it parses, because the input is trimmed before it is matched.
\<close>

theorem parseGitHubUrl_untrimmed_counterexample:
  "\<not> recognized_shape '' a/b'' \<and>
   parseGitHubUrl '' a/b'' =
     Some \<lparr> owner = ''a'', repo = ''b'', key = ''a/b'', url = ''https://github.com/a/b.git'' \<rparr>"
  using not_shape_examples(4) parse_space by (simp add: mk_parsed_def)

subsection \<open>The merge of load\<close>

lemma update_set_subset: "set (AList.update k v al) \<subseteq> insert (k, v) (set al)"
  by (induction al) auto

lemma find_append:
  "find P (xs @ ys) = (case find P xs of Some x \<Rightarrow> Some x | None \<Rightarrow> find P ys)"
  by (induction xs) auto

lemma find_Some_mem: "find P xs = Some x \<Longrightarrow> x \<in> set xs \<and> P x"
  by (induction xs) (auto split: if_splits)

lemma foldl_Map_set_keyed:
  "\<forall>p \<in> set al. fst p = key (snd p) \<Longrightarrow> \<forall>p \<in> set (foldl Map_set al xs). fst p = key (snd p)"
proof (induction xs arbitrary: al)
  case Nil then show ?case by simp
next
  case (Cons x xs)
  have "\<forall>p \<in> set (Map_set al x). fst p = key (snd p)"
    using Cons.prems update_set_subset[of "key x" x al] unfolding Map_set_def by auto
  then show ?case using Cons.IH by simp
qed

lemma foldl_Map_set_distinct:
  "distinct (map fst al) \<Longrightarrow> distinct (map fst (foldl Map_set al xs))"
  by (induction xs arbitrary: al) (simp_all add: Map_set_def distinct_update)

lemma foldl_Map_set_map_of:
  "map_of (foldl Map_set al xs) k =
     (case find (\<lambda>r. key r = k) (rev xs) of Some r \<Rightarrow> Some r | None \<Rightarrow> map_of al k)"
proof (induction xs arbitrary: al)
  case Nil then show ?case by simp
next
  case (Cons x xs)
  have m: "map_of (Map_set al x) k = (if key x = k then Some x else map_of al k)"
    by (simp add: Map_set_def update_conv')
  show ?case
    by (simp add: Cons.IH m find_append split: option.splits)
qed

lemma keyed_find_map_of:
  assumes "\<forall>p \<in> set al. fst p = key (snd p)" "distinct (map fst al)"
  shows "find (\<lambda>r. key r = k) (map snd al) = map_of al k"
  using assms
proof (induction al)
  case Nil then show ?case by simp
next
  case (Cons p al)
  then show ?case by (cases p) auto
qed



lemma merge_by_key_find:
  "find (\<lambda>r. key r = k) (merge_by_key xs) = find (\<lambda>r. key r = k) (rev xs)"
proof -
  have k: "\<forall>p \<in> set (foldl Map_set [] xs). fst p = key (snd p)"
    by (rule foldl_Map_set_keyed) simp
  have d: "distinct (map fst (foldl Map_set [] xs))" by (rule foldl_Map_set_distinct) simp
  show ?thesis unfolding merge_by_key_def keyed_find_map_of[OF k d] foldl_Map_set_map_of
    by (simp split: option.splits)
qed


lemma find_key_None_iff: "find (\<lambda>x. key x = k) xs = None \<longleftrightarrow> k \<notin> key ` set xs"
  by (induction xs) auto


lemma merge_by_key_keys: "key ` set (merge_by_key xs) = key ` set xs"
proof -
  have "k \<notin> key ` set (merge_by_key xs) \<longleftrightarrow> k \<notin> key ` set xs" for k
    unfolding find_key_None_iff[symmetric] merge_by_key_find by (simp add: find_key_None_iff)
  then show ?thesis by blast
qed


lemma foldl_Map_set_fresh:
  "distinct (map key xs) \<Longrightarrow> key ` set xs \<inter> fst ` set al = {} \<Longrightarrow>
     foldl Map_set al xs = al @ map (\<lambda>r. (key r, r)) xs"
proof (induction xs arbitrary: al)
  case Nil then show ?case by simp
next
  case (Cons x xs)
  have "key x \<notin> fst ` set al" using Cons.prems(2) by auto
  then have u: "Map_set al x = al @ [(key x, x)]"
    unfolding Map_set_def by (induction al) auto
  have "foldl Map_set (al @ [(key x, x)]) xs = (al @ [(key x, x)]) @ map (\<lambda>r. (key r, r)) xs"
    using Cons.prems by (intro Cons.IH) auto
  then show ?case by (simp add: u)
qed

lemma merge_by_key_id: "distinct (map key xs) \<Longrightarrow> merge_by_key xs = xs"
  unfolding merge_by_key_def by (subst foldl_Map_set_fresh) (simp_all add: comp_def)

lemma load_no_project: "projectMetadataPath m = None \<Longrightarrow> load m w = loadFromPath GlobalFile w"
  by (simp add: load_def)

lemma load_project:
  "projectMetadataPath m \<noteq> None \<Longrightarrow>
     load m w = merge_by_key (loadFromPath GlobalFile w @ loadFromPath ProjectFile w)"
  by (auto simp: load_def merge_by_key_def Let_def)

subsection \<open>Reading and writing the store\<close>

lemma loadFromPath_frame [simp]:
  "loadFromPath sc (w\<lparr>trace := t\<rparr>) = loadFromPath sc w"
  "loadFromPath sc (w\<lparr>dirs := d\<rparr>) = loadFromPath sc w"
  by (cases sc; simp add: loadFromPath_def read_file_def)+

lemma load_frame [simp]:
  "load m (w\<lparr>trace := t\<rparr>) = load m w"
  "load m (w\<lparr>dirs := d\<rparr>) = load m w"
  by (simp_all add: load_def Let_def split: option.splits)

lemma findByKey_frame [simp]:
  "findByKey m k (w\<lparr>trace := t\<rparr>) = findByKey m k w"
  "findByKey m k (w\<lparr>dirs := d\<rparr>) = findByKey m k w"
  by (simp_all add: findByKey_def)

lemma save_global:
  "save m e md False w =
     (if write_ok e GlobalFile md
      then (Inr (), w\<lparr>trace := trace w @ [WriteFile GlobalFile md], global_file := Entries md\<rparr>)
      else (Inl (SaveFailed GlobalFile), w\<lparr>trace := trace w @ [WriteFile GlobalFile md]\<rparr>))"
  by (simp add: save_def saveToPath_def write_file_def Let_def)

lemma remove_key_global:
  "remove_key m e k False w = save m e (filter (\<lambda>r. key r \<noteq> k) (load m w)) False w"
  by (simp add: remove_key_def Let_def)

lemma upsert_global:
  "upsert m e r False w = save m e (upsert_list (load m w) r) False w"
  by (simp add: upsert_def upsert_list_def Let_def)

lemma evolves_refl: "evolves Q w w"
  by (simp add: evolves_def)

lemma evolves_trans: "evolves Q w w1 \<Longrightarrow> evolves Q w1 w2 \<Longrightarrow> evolves Q w w2"
  unfolding evolves_def by auto

lemma evolves_mono: "evolves Q w w' \<Longrightarrow> (\<And>ev. Q ev \<Longrightarrow> R ev) \<Longrightarrow> evolves R w w'"
  unfolding evolves_def by auto

lemma evolves_new_events:
  "evolves Q w w' \<Longrightarrow> \<forall>ev \<in> set (new_events w w'). Q ev"
  unfolding evolves_def new_events_def by auto

lemma evolves_trace: "evolves Q w w' \<Longrightarrow> trace w' = trace w @ new_events w w'"
  unfolding evolves_def new_events_def by auto

lemma new_events_trans:
  "evolves Q w w1 \<Longrightarrow> evolves R w1 w2 \<Longrightarrow> new_events w w2 = new_events w w1 @ new_events w1 w2"
  unfolding evolves_def new_events_def by auto

lemma save_evolves:
  "save m e md False w = (r, w') \<Longrightarrow> evolves eviction_event w w'"
  by (auto simp: save_global evolves_def split: if_splits)

lemma rm_rf_evolves: "rm_rf m e p w = (r, w') \<Longrightarrow> evolves eviction_event w w'"
  by (auto simp: rm_rf_def evolves_def Let_def split: if_splits)

lemma deleteRepo_evolves:
  assumes "deleteRepo cm e k w = (r, w')"
  shows "evolves eviction_event w w'"
proof (cases "findByKey (metadata cm) k w")
  case None
  with assms show ?thesis by (simp add: deleteRepo_def evolves_refl)
next
  case (Some x)
  show ?thesis
  proof (cases "existsSync w (path x)")
    case True
    obtain r1 w1 where 1: "rm_rf (metadata cm) e (path x) w = (r1, w1)" by (cases "rm_rf (metadata cm) e (path x) w")
    show ?thesis
    proof (cases r1)
      case (Inl a)
      with assms Some True 1 have "w' = w1" by (simp add: deleteRepo_def io_bind_def)
      with rm_rf_evolves[OF 1] show ?thesis by simp
    next
      case (Inr b)
      with assms Some True 1 have "remove_key (metadata cm) e k False w1 = (r, w')"
        by (simp add: deleteRepo_def io_bind_def)
      then have "evolves eviction_event w1 w'" unfolding remove_key_global by (rule save_evolves)
      with rm_rf_evolves[OF 1] show ?thesis by (rule evolves_trans)
    qed
  next
    case False
    with assms Some have "remove_key (metadata cm) e k False w = (r, w')"
      by (simp add: deleteRepo_def io_bind_def io_return_def)
    then show ?thesis unfolding remove_key_global by (rule save_evolves)
  qed
qed

lemma deleteRepos_evolves:
  "deleteRepos cm e ks w = (r, w') \<Longrightarrow> evolves eviction_event w w'"
proof (induction ks arbitrary: w)
  case Nil then show ?case by (simp add: evolves_refl)
next
  case (Cons k ks)
  obtain r1 w1 where 1: "deleteRepo cm e k w = (r1, w1)" by (cases "deleteRepo cm e k w")
  show ?case
  proof (cases r1)
    case (Inl a)
    with Cons.prems 1 have "w' = w1" by simp
    with deleteRepo_evolves[OF 1] show ?thesis by simp
  next
    case (Inr b)
    with Cons.prems 1 have "deleteRepos cm e ks w1 = (r, w')" by simp
    from evolves_trans[OF deleteRepo_evolves[OF 1] Cons.IH[OF this]] show ?thesis .
  qed
qed

lemma cleanupLRU_evolves: "cleanupLRU cm e n w = (r, w') \<Longrightarrow> evolves eviction_event w w'"
  unfolding cleanupLRU_def Let_def by (rule deleteRepos_evolves)


lemma ensureCapacity_evolves: "ensureCapacity cm e w = (r, w') \<Longrightarrow> evolves eviction_event w w'"
  unfolding ensureCapacity_def Let_def
  by (auto split: if_splits dest: cleanupLRU_evolves simp: evolves_refl)

subsection \<open>The store after a write\<close>

lemma loadFromPath_cong:
  "read_file sc w' = read_file sc w \<Longrightarrow> loadFromPath sc w' = loadFromPath sc w"
  by (simp add: loadFromPath_def)

lemma load_cong:
  assumes "global_file w' = global_file w" "project_file w' = project_file w"
  shows "load m w' = load m w"
proof -
  have "loadFromPath sc w' = loadFromPath sc w" for sc
    using assms by (cases sc) (simp_all add: loadFromPath_def read_file_def)
  then show ?thesis by (simp add: load_def Let_def split: option.splits)
qed

lemma load_after_write:
  assumes "global_file w' = Entries md" "project_file w' = project_file w"
  shows "load m w' =
           (if projectMetadataPath m = None then md
            else merge_by_key (md @ loadFromPath ProjectFile w))"
proof -
  have g: "loadFromPath GlobalFile w' = md" using assms(1) by (simp add: loadFromPath_def read_file_def)
  have p: "loadFromPath ProjectFile w' = loadFromPath ProjectFile w"
    using assms(2) by (simp add: loadFromPath_def read_file_def)
  show ?thesis
  proof (cases "projectMetadataPath m = None")
    case True then show ?thesis by (simp add: load_no_project g)
  next
    case False then show ?thesis using load_project[OF False, of w'] by (auto simp: g p)
  qed
qed

lemma save_ok:
  assumes "save m e md False w = (Inr u, w')"
  shows "global_file w' = Entries md" "project_file w' = project_file w" "dirs w' = dirs w"
    "trace w' = trace w @ [WriteFile GlobalFile md]" "write_ok e GlobalFile md"
  using assms by (auto simp: save_global split: if_splits)

lemma save_err:
  assumes "save m e md False w = (Inl err, w')"
  shows "err = SaveFailed GlobalFile" "global_file w' = global_file w"
    "project_file w' = project_file w" "dirs w' = dirs w"
    "trace w' = trace w @ [WriteFile GlobalFile md]" "\<not> write_ok e GlobalFile md"
  using assms by (auto simp: save_global split: if_splits)

lemma save_err_load: "save m e md False w = (Inl err, w') \<Longrightarrow> load m' w' = load m' w"
  by (rule load_cong) (simp_all add: save_err)

lemma load_keys_project:
  "projectMetadataPath m \<noteq> None \<Longrightarrow>
     key ` set (load m w) = key ` set (loadFromPath GlobalFile w) \<union> key ` set (loadFromPath ProjectFile w)"
  by (simp add: load_project merge_by_key_keys image_Un)

lemma load_after_write_keys:
  assumes "global_file w' = Entries md" "project_file w' = project_file w"
  shows "key ` set (load m w') \<subseteq> key ` set md \<union> key ` set (load m w)"
proof (cases "projectMetadataPath m = None")
  case True
  then show ?thesis using load_after_write[OF assms, of m] by simp
next
  case False
  then show ?thesis
    using load_after_write[OF assms, of m] load_keys_project[OF False, of w]
    by (auto simp: merge_by_key_keys)
qed

subsection \<open>findIndex and the list that upsert writes\<close>

lemma findIndex_neg: "findIndex P xs < 0 \<longleftrightarrow> (\<forall>x \<in> set xs. \<not> P x)"
  by (induction xs) (auto simp: Let_def)

lemma findIndex_ge: "findIndex P xs \<ge> -1"
  by (induction xs) (auto simp: Let_def)

lemma findIndex_pos:
  "0 \<le> findIndex P xs \<Longrightarrow>
     nat (findIndex P xs) < length xs \<and> P (xs ! nat (findIndex P xs)) \<and>
     (\<forall>j < nat (findIndex P xs). \<not> P (xs ! j))"
proof (induction xs)
  case Nil then show ?case by simp
next
  case (Cons x xs)
  show ?case
  proof (cases "P x")
    case True then show ?thesis by simp
  next
    case False
    with Cons.prems have p: "0 \<le> findIndex P xs" by (auto simp: Let_def split: if_splits)
    then have n: "nat (findIndex P (x # xs)) = Suc (nat (findIndex P xs))"
      using False by (simp add: Let_def nat_add_distrib)
    from Cons.IH[OF p] False show ?thesis unfolding n by (auto simp: less_Suc_eq_0_disj)
  qed
qed

lemma upsert_list_keys: "key ` set (upsert_list xs r) = insert (key r) (key ` set xs)"
proof (cases "0 \<le> findIndex (\<lambda>x. key x = key r) xs")
  case True
  let ?i = "nat (findIndex (\<lambda>x. key x = key r) xs)"
  from findIndex_pos[OF True] have i: "?i < length xs" "key (xs ! ?i) = key r" by auto
  have "map key (xs[?i := r]) = map key xs"
    using i by (simp add: map_update list_update_same_conv)
  then have "key ` set (xs[?i := r]) = key ` set xs" by (metis set_map)
  moreover have "key r \<in> key ` set xs" using i by (metis nth_mem image_eqI)
  ultimately show ?thesis using True by (auto simp: upsert_list_def Let_def)
next
  case False
  then show ?thesis by (auto simp: upsert_list_def Let_def)
qed


lemma upsert_list_find:
  "find (\<lambda>x. key x = key r) (upsert_list xs r) = Some r"
proof (cases "0 \<le> findIndex (\<lambda>x. key x = key r) xs")
  case True
  let ?i = "nat (findIndex (\<lambda>x. key x = key r) xs)"
  from findIndex_pos[OF True] have i: "?i < length xs" "\<forall>j < ?i. key (xs ! j) \<noteq> key r" by auto
  have "find (\<lambda>x. key x = key r) (xs[?i := r]) = Some r"
    unfolding find_Some_iff using i by (intro exI[of _ ?i]) auto
  then show ?thesis using True by (simp add: upsert_list_def Let_def)
next
  case False
  then have "findIndex (\<lambda>x. key x = key r) xs < 0" by simp
  then have "find (\<lambda>x. key x = key r) xs = None" by (auto simp: findIndex_neg find_None_iff)
  then show ?thesis using False by (simp add: upsert_list_def Let_def find_append)
qed

lemma upsert_list_mem: "r \<in> set (upsert_list xs r)"
  using upsert_list_find[of r xs] by (auto dest: find_Some_mem)

subsection \<open>Deleting never adds\<close>

lemma shrinks_refl: "shrinks m w w"
  by (simp add: shrinks_def)

lemma shrinks_trans: "shrinks m w w1 \<Longrightarrow> shrinks m w1 w2 \<Longrightarrow> shrinks m w w2"
  unfolding shrinks_def by blast

lemma save_shrinks:
  assumes "save m e md False w = (r, w')" "key ` set md \<subseteq> key ` set (load m w)"
  shows "shrinks m w w'"
proof (cases r)
  case (Inl err)
  with assms(1) have "load m w' = load m w" "dirs w' = dirs w"
    by (auto dest: save_err_load save_err(4))
  then show ?thesis by (simp add: shrinks_def)
next
  case (Inr u)
  with assms(1) have s: "save m e md False w = (Inr u, w')" by simp
  from load_after_write_keys[OF save_ok(1,2)[OF s], of m] assms(2) save_ok(3)[OF s]
  show ?thesis by (auto simp: shrinks_def)
qed

lemma remove_key_shrinks: "remove_key m e k False w = (r, w') \<Longrightarrow> shrinks m w w'"
  unfolding remove_key_global by (rule save_shrinks) auto

text \<open>A file that is what it was, or gone.\<close>

lemma load_keys_removed:
  assumes g: "global_file w' = global_file w \<or> global_file w' = Missing"
    and p: "project_file w' = project_file w \<or> project_file w' = Missing"
  shows "key ` set (load m w') \<subseteq> key ` set (load m w)"
proof -
  have 1: "set (loadFromPath GlobalFile w') \<subseteq> set (loadFromPath GlobalFile w)"
    using g by (auto simp: loadFromPath_def read_file_def)
  have 2: "set (loadFromPath ProjectFile w') \<subseteq> set (loadFromPath ProjectFile w)"
    using p by (auto simp: loadFromPath_def read_file_def)
  show ?thesis
  proof (cases "projectMetadataPath m = None")
    case True
    with 1 show ?thesis by (auto simp: load_no_project)
  next
    case False
    show ?thesis unfolding load_keys_project[OF False] using 1 2 by blast
  qed
qed

lemma rm_rf_files:
  assumes "rm_rf m e p w = (r, w')"
  shows "global_file w' = global_file w \<or> global_file w' = Missing \<and> holds_file m p GlobalFile"
    and "project_file w' = project_file w \<or> project_file w' = Missing \<and> holds_file m p ProjectFile"
    and "trace w' = trace w @ [RmRf p]"
  using assms by (auto simp: rm_rf_def Let_def split: if_splits)

lemma rm_rf_dirs:
  assumes "rm_rf m e p w = (r, w')"
  shows "\<not> under p q \<Longrightarrow> dirs w' q = dirs w q"
    and "dirs w q = None \<Longrightarrow> dirs w' q = None"
    and "r = Inr u \<Longrightarrow> under p q \<Longrightarrow> dirs w' q = None"
  using assms by (auto simp: rm_rf_def Let_def split: if_splits)

lemma rm_rf_result:
  "rm_rf m e p w = (r, w') \<Longrightarrow> r = (if rm_ok e p then Inr () else Inl (RmFailed p))"
  by (auto simp: rm_rf_def Let_def split: if_splits)

lemma under_refl [simp]: "under p p"
  by (simp add: under_def)

lemma rm_rf_shrinks:
  assumes "rm_rf m e p w = (r, w')"
  shows "shrinks m' w w'"
proof -
  have "key ` set (load m' w') \<subseteq> key ` set (load m' w)"
    using rm_rf_files(1,2)[OF assms] by (intro load_keys_removed) auto
  moreover have "dirs w' q \<noteq> None \<longrightarrow> dirs w q \<noteq> None" for q
    using rm_rf_dirs(2)[OF assms, of q] by (cases "dirs w q") simp_all
  ultimately show ?thesis by (simp add: shrinks_def)
qed

lemma deleteRepo_shrinks:
  assumes "deleteRepo cm e k w = (r, w')"
  shows "shrinks (metadata cm) w w'"
proof (cases "findByKey (metadata cm) k w")
  case None
  with assms show ?thesis by (simp add: deleteRepo_def shrinks_refl)
next
  case (Some x)
  show ?thesis
  proof (cases "existsSync w (path x)")
    case True
    obtain r1 w1 where 1: "rm_rf (metadata cm) e (path x) w = (r1, w1)" by (cases "rm_rf (metadata cm) e (path x) w")
    show ?thesis
    proof (cases r1)
      case (Inl a)
      with assms Some True 1 have "w' = w1" by (simp add: deleteRepo_def io_bind_def)
      with rm_rf_shrinks[OF 1] show ?thesis by simp
    next
      case (Inr b)
      with assms Some True 1 have "remove_key (metadata cm) e k False w1 = (r, w')"
        by (simp add: deleteRepo_def io_bind_def)
      from shrinks_trans[OF rm_rf_shrinks[OF 1] remove_key_shrinks[OF this]] show ?thesis .
    qed
  next
    case False
    with assms Some have "remove_key (metadata cm) e k False w = (r, w')"
      by (simp add: deleteRepo_def io_bind_def io_return_def)
    then show ?thesis by (rule remove_key_shrinks)
  qed
qed

lemma deleteRepos_shrinks:
  "deleteRepos cm e ks w = (r, w') \<Longrightarrow> shrinks (metadata cm) w w'"
proof (induction ks arbitrary: w)
  case Nil then show ?case by (simp add: shrinks_refl)
next
  case (Cons k ks)
  obtain r1 w1 where 1: "deleteRepo cm e k w = (r1, w1)" by (cases "deleteRepo cm e k w")
  show ?case
  proof (cases r1)
    case (Inl a)
    with Cons.prems 1 have "w' = w1" by simp
    with deleteRepo_shrinks[OF 1] show ?thesis by simp
  next
    case (Inr b)
    with Cons.prems 1 have "deleteRepos cm e ks w1 = (r, w')" by simp
    from shrinks_trans[OF deleteRepo_shrinks[OF 1] Cons.IH[OF this]] show ?thesis .
  qed
qed

lemma cleanupLRU_shrinks: "cleanupLRU cm e n w = (r, w') \<Longrightarrow> shrinks (metadata cm) w w'"
  unfolding cleanupLRU_def Let_def by (rule deleteRepos_shrinks)

lemma ensureCapacity_shrinks: "ensureCapacity cm e w = (r, w') \<Longrightarrow> shrinks (metadata cm) w w'"
  unfolding ensureCapacity_def Let_def
  by (auto split: if_splits dest: cleanupLRU_shrinks simp: shrinks_refl)

subsection \<open>What load returns\<close>

lemma findByKey_project:
  assumes "projectMetadataPath m \<noteq> None"
  shows "findByKey m k w =
           (case find (\<lambda>r. key r = k) (rev (loadFromPath ProjectFile w)) of
              Some r \<Rightarrow> Some r
            | None \<Rightarrow> find (\<lambda>r. key r = k) (rev (loadFromPath GlobalFile w)))"
  by (simp add: findByKey_def load_project[OF assms] merge_by_key_find find_append)






subsection \<open>The steps of cloneRepo\<close>


lemma upsert_evolves: "upsert m e r False w = (res, w') \<Longrightarrow> evolves eviction_event w w'"
  unfolding upsert_global by (rule save_evolves)

lemma updateLastAccessed_evolves:
  "updateLastAccessed cm e k w = (res, w') \<Longrightarrow> evolves eviction_event w w'"
  unfolding updateLastAccessed_def
  by (auto split: option.splits dest: upsert_evolves simp: evolves_refl)

lemma eviction_lifecycle: "eviction_event ev \<Longrightarrow> lifecycle_event ev"
  by (cases ev) auto

lemma evolves_lifecycle: "evolves eviction_event w w' \<Longrightarrow> evolves lifecycle_event w w'"
  by (erule evolves_mono) (rule eviction_lifecycle)

text \<open>Making directories.\<close>

lemma grows_refl: "grows w w"
  by (simp add: grows_def)

lemma grows_trans: "grows w w1 \<Longrightarrow> grows w1 w2 \<Longrightarrow> grows w w2"
  unfolding grows_def by (metis (no_types, lifting) option.distinct(1))

lemma grows_load: "grows w w' \<Longrightarrow> load m w' = load m w"
  by (rule load_cong) (simp_all add: grows_def)

lemma grows_evolves: "grows w w' \<Longrightarrow> evolves Q w w'"
  by (simp add: grows_def evolves_def)


lemma mkdir_p_grows: "mkdir_p e p w = (r, w') \<Longrightarrow> grows w w'"
  by (auto simp: mkdir_p_def grows_def split: if_splits)

lemma ensureDirectory_grows: "ensureDirectory e p w = (r, w') \<Longrightarrow> grows w w'"
  by (auto simp: ensureDirectory_def grows_refl split: if_splits dest: mkdir_p_grows)

lemma ensureDirectory_result:
  "ensureDirectory e p w = (r, w') \<Longrightarrow>
     r = (if existsSync w p \<or> mkdir_ok e p then Inr () else Inl (MkdirFailed p))"
  by (auto simp: ensureDirectory_def mkdir_p_def split: if_splits)

text \<open>The \<^verbatim>\<open>try\<close> block, case by case.\<close>

lemma cloneRepo_try_cases:
  assumes c: "cloneRepo_try cm e parsed rp w = (res, w')"
  obtains (mkdir) p where "grows w w'" "res = Inl (MkdirFailed p)"
  | (fail) wm left where "grows w wm"
      "clone_result e (cloneDepth (config cm)) (ParsedGitHubUrl.url parsed) rp = CloneFail left"
      "res = Inl (GitCloneFailed (ParsedGitHubUrl.url parsed))"
      "w' = wm\<lparr>trace := trace wm @ [GitClone (cloneDepth (config cm)) (ParsedGitHubUrl.url parsed) rp],
               dirs := (dirs wm)(rp := left)\<rparr>"
  | (ok) wm a r2 where "grows w wm"
      "clone_result e (cloneDepth (config cm)) (ParsedGitHubUrl.url parsed) rp = CloneOk a"
      "save (metadata cm) e
         (upsert_list (load (metadata cm) wm)
            \<lparr> key = ParsedGitHubUrl.key parsed, url = ParsedGitHubUrl.url parsed,
              path = rp, clonedAt = now e, lastAccessed = now e, size_bytes = None \<rparr>) False
         (wm\<lparr>trace := trace wm @ [GitClone (cloneDepth (config cm)) (ParsedGitHubUrl.url parsed) rp],
             dirs := (dirs wm)(rp \<mapsto> a)\<rparr>) = (r2, w')"
      "res = (case r2 of Inl err \<Rightarrow> Inl err | Inr u \<Rightarrow> Inr rp)"
proof -
  let ?D = "cloneDirectory (config cm)"
  let ?O = "path_join [cloneDirectory (config cm), owner parsed]"
  let ?g = "GitClone (cloneDepth (config cm)) (ParsedGitHubUrl.url parsed) rp"
  obtain r1 w1 where 1: "ensureDirectory e ?D w = (r1, w1)" by (cases "ensureDirectory e ?D w")
  note g1 = ensureDirectory_grows[OF 1]
  show ?thesis
  proof (cases r1)
    case (Inl err)
    with c 1 have "w' = w1" "res = Inl err" by (simp_all add: cloneRepo_try_def io_bind_def)
    moreover from ensureDirectory_result[OF 1] Inl have "err = MkdirFailed ?D"
      by (simp split: if_splits)
    ultimately show ?thesis using g1 mkdir by simp
  next
    case r1: (Inr u1)
    obtain r2 w2 where 2: "ensureDirectory e ?O w1 = (r2, w2)" by (cases "ensureDirectory e ?O w1")
    note g2 = grows_trans[OF g1 ensureDirectory_grows[OF 2]]
    show ?thesis
    proof (cases r2)
      case (Inl err)
      with c 1 r1 2 have "w' = w2" "res = Inl err" by (simp_all add: cloneRepo_try_def io_bind_def)
      moreover from ensureDirectory_result[OF 2] Inl have "err = MkdirFailed ?O"
        by (simp split: if_splits)
      ultimately show ?thesis using g2 mkdir by simp
    next
      case r2: (Inr u2)
      show ?thesis
      proof (cases "clone_result e (cloneDepth (config cm)) (ParsedGitHubUrl.url parsed) rp")
        case (CloneFail left)
        with c 1 r1 2 r2
        have "res = Inl (GitCloneFailed (ParsedGitHubUrl.url parsed))"
          "w' = w2\<lparr>trace := trace w2 @ [?g], dirs := (dirs w2)(rp := left)\<rparr>"
          by (simp_all add: cloneRepo_try_def io_bind_def git_clone_def Let_def)
        with g2 CloneFail show ?thesis by (rule fail)
      next
        case (CloneOk a)
        let ?w3 = "w2\<lparr>trace := trace w2 @ [?g], dirs := (dirs w2)(rp \<mapsto> a)\<rparr>"
        let ?new = "\<lparr> key = ParsedGitHubUrl.key parsed, url = ParsedGitHubUrl.url parsed,
              path = rp, clonedAt = now e, lastAccessed = now e, size_bytes = None \<rparr>"
        obtain r3 w3 where 3: "save (metadata cm) e (upsert_list (load (metadata cm) w2) ?new) False ?w3 = (r3, w3)"
          by (cases "save (metadata cm) e (upsert_list (load (metadata cm) w2) ?new) False ?w3")
        with c 1 r1 2 r2 CloneOk
        have "w' = w3" "res = (case r3 of Inl err \<Rightarrow> Inl err | Inr u \<Rightarrow> Inr rp)"
          by (simp_all add: cloneRepo_try_def io_bind_def io_return_def git_clone_def Let_def
              upsert_global split: sum.splits)
        with g2 CloneOk 3 show ?thesis by (intro ok[of w2 a r3]) simp_all
      qed
    qed
  qed
qed

lemma cloneRepo_try_evolves:
  assumes "cloneRepo_try cm e parsed rp w = (res, w')"
  shows "evolves lifecycle_event w w'"
  using assms
proof (cases rule: cloneRepo_try_cases)
  case (mkdir p)
  then show ?thesis by (simp add: grows_evolves)
next
  case (fail wm left)
  then show ?thesis by (simp add: grows_def evolves_def)
next
  case (ok wm a r2)
  have "evolves lifecycle_event w
          (wm\<lparr>trace := trace wm @ [GitClone (cloneDepth (config cm)) (ParsedGitHubUrl.url parsed) rp],
              dirs := (dirs wm)(rp \<mapsto> a)\<rparr>)"
    using ok(1) by (simp add: grows_def evolves_def)
  from evolves_trans[OF this evolves_lifecycle[OF save_evolves[OF ok(3)]]] show ?thesis .
qed

lemma catch_cleanup_evolves:
  assumes "io_bind (if existsSync w rp then rm_rf m e rp else io_return ()) (\<lambda>_ w3. (Inl x, w3)) w = (res, w')"
  shows "evolves eviction_event w w'"
  using assms
  by (auto simp: io_bind_def io_return_def evolves_refl split: if_splits prod.splits sum.splits
      dest: rm_rf_evolves)

lemma cloneRepo_fetch_evolves:
  assumes "cloneRepo_fetch cm e parsed w = (res, w')"
  shows "evolves lifecycle_event w w'"
proof -
  obtain r1 w1 where 1: "ensureCapacity cm e w = (r1, w1)" by (cases "ensureCapacity cm e w")
  note e1 = evolves_lifecycle[OF ensureCapacity_evolves[OF 1]]
  show ?thesis
  proof (cases r1)
    case (Inl a)
    with assms 1 have "w' = w1" by (simp add: cloneRepo_fetch_def io_bind_def)
    with e1 show ?thesis by simp
  next
    case (Inr b)
    let ?rp = "path_join [cloneDirectory (config cm), owner parsed, repo parsed]"
    obtain r2 w2 where 2: "cloneRepo_try cm e parsed ?rp w1 = (r2, w2)"
      by (cases "cloneRepo_try cm e parsed ?rp w1")
    note e2 = evolves_trans[OF e1 cloneRepo_try_evolves[OF 2]]
    show ?thesis
    proof (cases r2)
      case (Inr p)
      with assms 1 2 \<open>r1 = Inr b\<close> have "w' = w2" by (simp add: cloneRepo_fetch_def io_bind_def Let_def)
      with e2 show ?thesis by simp
    next
      case (Inl err)
      with assms 1 2 \<open>r1 = Inr b\<close>
      have "io_bind (if existsSync w2 ?rp then rm_rf (metadata cm) e ?rp else io_return ())
              (\<lambda>_ w3. (Inl (FailedToClone (ParsedGitHubUrl.key parsed) err), w3)) w2 = (res, w')"
        by (auto simp: cloneRepo_fetch_def io_bind_def Let_def split: if_splits)
      from evolves_trans[OF e2 evolves_lifecycle[OF catch_cleanup_evolves[OF this]]] show ?thesis .
    qed
  qed
qed


lemma save_new_events:
  "save m e md False w = (res, w') \<Longrightarrow> new_events w w' = [WriteFile GlobalFile md]"
  by (auto simp: save_global new_events_def split: if_splits)

subsection \<open>The deletion step\<close>







subsection \<open>Evaluating the model on the examples\<close>

lemmas parse_eval =
  parseGitHubUrl_def trim_def is_ws_def httpsPattern_def sshPattern_def strip_prefix_def
  shorthandPattern_def is_owner_char_def is_repo_char_def is_alnum_def validateGitHubNames_def

lemmas store_eval =
  findByKey_def load_def loadFromPath_def read_file_def Map_set_def save_def saveToPath_def
  write_file_def upsert_def remove_key_def getSortedByLRU_def

lemmas manager_eval =
  cloneRepo_def cloneRepo_fetch_def cloneRepo_try_def io_bind_def io_return_def
  ensureCapacity_def cleanupLRU_def deleteRepo_def existsSync_def rm_rf_def under_def
  holds_file_def ensureDirectory_def mkdir_p_def parent_paths_def empty_dir_def git_clone_def
  updateLastAccessed_def validateClone_def Let_def

lemmas example_eval =
  ex_config_def ex_manager_def ex_entry_def ex_artifact_def ex_bare_artifact_def ex_env_def
  ex_world_def ex_empty_def ex_global_a_def ex_project_a_def ex_project_stale_def

lemma parse_o_a: "parseGitHubUrl ''o/a'' = Some (mk_parsed ''o'' ''a'')"
  by (simp add: parse_eval)

lemma parse_o_b: "parseGitHubUrl ''o/b'' = Some (mk_parsed ''o'' ''b'')"
  by (simp add: parse_eval)

lemma valid_o: "validateGitHubNames ''o'' ''a''" "validateGitHubNames ''o'' ''b''"
  by (simp_all add: parse_eval)

text \<open>\<^verbatim>\<open>path.join\<close> on the paths of the examples, and on some that it changes.\<close>

lemma join_c_o [simp]:
  "path_join [''/c'', ''o''] = ''/c/o''"
  "path_join [''/c'', ''o'', ''a''] = ''/c/o/a''"
  "path_join [''/c'', ''o'', ''b''] = ''/c/o/b''"
  by (simp_all add: path_join_def normalize_def)

text \<open>The paths of the examples are resolved already; other spellings are not.\<close>

lemma resolve_examples [simp]:
  "resolve ''/c'' = ''/c''"
  "resolve ''/c/o'' = ''/c/o''"
  "resolve ''/c/o/a'' = ''/c/o/a''"
  "resolve ''/c/o/b'' = ''/c/o/b''"
  "resolve ''/old/o/a'' = ''/old/o/a''"
  "resolve ''/home/.config/opencode/github-explorer-metadata.json'' =
     ''/home/.config/opencode/github-explorer-metadata.json''"
  "resolve ''/proj/.opencode/github-explorer-metadata.json'' =
     ''/proj/.opencode/github-explorer-metadata.json''"
  by (simp_all add: resolve_def normalize_def)

lemma resolve_spellings:
  "resolve ''/c/o/a/'' = ''/c/o/a''"
  "resolve ''/c/./o//a'' = ''/c/o/a''"
  "resolve ''/c/o/b/../a'' = ''/c/o/a''"
  "resolve ''./test-repos-unit'' = ''test-repos-unit''"
  "resolve ''/'' = ''/''"
  "resolve [] = ''.''"
  by (simp_all add: resolve_def normalize_def)

lemma under_examples:
  "under ''/c/o/a'' ''/c/o/a''"
  "under ''/c/o'' ''/c/o/a''"
  "under ''/c/./o/'' ''/c/o/a''"
  "under ''/'' ''/c/o/a''"
  "under ''/c'' ''/c/o/../x''"
  "\<not> under ''/c/o/a'' ''/c/o/ab''"
  "\<not> under ''/c/o/a'' ''/c/o''"
  "\<not> under ''/c/o/a'' ''/c/o/a/../b''"
  "under ''.'' ''test-repos-unit/o/a''"
  "\<not> under ''.'' ''../x''"
  by (simp_all add: under_def resolve_def normalize_def)

lemma join_examples:
  "path_join [''./test-repos-unit'', ''o'', ''a''] = ''test-repos-unit/o/a''"
  "path_join [''/c'', ''o'', ''..''] = ''/c''"
  "path_join [''/c'', ''o'', ''.''] = ''/c/o''"
  "path_join [''a//b/'', ''../c/''] = ''a/c/''"
  "path_join [''..'', ''..'', ''x''] = ''../../x''"
  "path_join [''/..'', ''x''] = ''/x''"
  "path_join [[], []] = ''.''"
  by (simp_all add: path_join_def normalize_def)

lemma example_manager_built:
  "ex_manager n True = new_CloneManager ''/home'' (ex_config n) (Some ''/proj'')"
  "ex_manager n False = new_CloneManager ''/home'' (ex_config n) None"
  by (simp_all add: ex_manager_def new_CloneManager_def new_MetadataManager_def expandPath_def
      ex_config_def path_join_def normalize_def)





subsection \<open>A failing fetch\<close>

lemma eviction_no_fetch:
  "evolves eviction_event w w' \<Longrightarrow> GitClone d u p \<notin> set (new_events w w')"
  using evolves_new_events[of eviction_event w w'] by fastforce

lemma fetch_in_second:
  assumes "evolves eviction_event w w1" "evolves Q w1 w2" "GitClone d u p \<in> set (new_events w w2)"
  shows "GitClone d u p \<in> set (new_events w1 w2)"
  using new_events_trans[OF assms(1,2)] eviction_no_fetch[OF assms(1), of d u p] assms(3) by simp

lemma shrinks_keys: "shrinks m w w' \<Longrightarrow> key ` set (load m w') \<subseteq> key ` set (load m w)"
  by (simp add: shrinks_def)

lemma cloneRepo_fetch_failure_aux:
  assumes f: "cloneRepo_fetch cm e parsed w = (res, w')"
    and g: "GitClone d u' p \<in> set (new_events w w')"
    and rp: "rp = path_join [cloneDirectory (config cm), owner parsed, repo parsed]"
    and c: "clone_result e (cloneDepth (config cm)) (ParsedGitHubUrl.url parsed) rp = CloneFail left"
    and l: "left = None \<or> rm_ok e rp"
  shows "res = Inl (FailedToClone (ParsedGitHubUrl.key parsed) (GitCloneFailed (ParsedGitHubUrl.url parsed)))
         \<and> \<not> existsSync w' rp
         \<and> key ` set (load (metadata cm) w') \<subseteq> key ` set (load (metadata cm) w)"
proof -
  let ?m = "metadata cm"
  obtain r1 w1 where 1: "ensureCapacity cm e w = (r1, w1)" by (cases "ensureCapacity cm e w")
  note e1 = ensureCapacity_evolves[OF 1]
  show ?thesis
  proof (cases r1)
    case (Inl a)
    with f 1 have "w' = w1" by (simp add: cloneRepo_fetch_def io_bind_def)
    with eviction_no_fetch[OF e1] g show ?thesis by simp
  next
    case (Inr b)
    obtain r2 w2 where 2: "cloneRepo_try cm e parsed rp w1 = (r2, w2)"
      by (cases "cloneRepo_try cm e parsed rp w1")
    have r2: "\<exists>err. r2 = Inl err"
      using 2 c by (cases rule: cloneRepo_try_cases) auto
    then obtain err where err: "r2 = Inl err" by blast
    have k: "io_bind (if existsSync w2 rp then rm_rf ?m e rp else io_return ())
              (\<lambda>_ w3. (Inl (FailedToClone (ParsedGitHubUrl.key parsed) err), w3)) w2 = (res, w')"
      using f 1 2 Inr err unfolding rp
      by (auto simp: cloneRepo_fetch_def io_bind_def Let_def split: if_splits)
    note e3 = catch_cleanup_evolves[OF k]
    let ?g = "GitClone (cloneDepth (config cm)) (ParsedGitHubUrl.url parsed) rp"
    from 2 show ?thesis
    proof (cases rule: cloneRepo_try_cases)
      case (mkdir q)
      then have "evolves eviction_event w1 w2" by (simp add: grows_evolves)
      with e1 e3 have "evolves eviction_event w w'" by (auto intro: evolves_trans)
      with eviction_no_fetch g show ?thesis by blast
    next
      case (ok wm a r3)
      with c show ?thesis by simp
    next
      case (fail wm left')
      with c have left: "left' = left" by simp
      have w2: "w2 = wm\<lparr>trace := trace wm @ [?g], dirs := (dirs wm)(rp := left)\<rparr>"
        using fail(4) left by simp
      have er: "err = GitCloneFailed (ParsedGitHubUrl.url parsed)" using fail(3) err by simp
      have ld: "load ?m w2 = load ?m w1" using grows_load[OF fail(1), of ?m] by (simp add: w2)
      have "res = Inl (FailedToClone (ParsedGitHubUrl.key parsed) err) \<and> dirs w' rp = None
            \<and> key ` set (load ?m w') \<subseteq> key ` set (load ?m w2)"
      proof (cases left)
        case None
        then have "\<not> existsSync w2 rp" by (simp add: existsSync_def w2)
        with k show ?thesis by (auto simp: io_bind_def io_return_def existsSync_def)
      next
        case (Some a)
        then have x: "existsSync w2 rp" by (simp add: existsSync_def w2)
        from Some l have ok: "rm_ok e rp" by simp
        obtain r3 w3 where 3: "rm_rf ?m e rp w2 = (r3, w3)" by (cases "rm_rf ?m e rp w2")
        from rm_rf_result[OF 3] ok have r3: "r3 = Inr ()" by simp
        from k x 3 r3 have "res = Inl (FailedToClone (ParsedGitHubUrl.key parsed) err)" "w' = w3"
          by (simp_all add: io_bind_def)
        moreover have "dirs w3 rp = None" using rm_rf_dirs(3)[OF 3 r3 under_refl] .
        moreover have "key ` set (load ?m w3) \<subseteq> key ` set (load ?m w2)"
          using rm_rf_shrinks[OF 3] by (rule shrinks_keys)
        ultimately show ?thesis by simp
      qed
      then have a: "res = Inl (FailedToClone (ParsedGitHubUrl.key parsed) err)"
        and b: "dirs w' rp = None"
        and s: "key ` set (load ?m w') \<subseteq> key ` set (load ?m w1)"
        by (simp_all add: ld)
      have "key ` set (load ?m w1) \<subseteq> key ` set (load ?m w)"
        using ensureCapacity_shrinks[OF 1] by (rule shrinks_keys)
      with s have "key ` set (load ?m w') \<subseteq> key ` set (load ?m w)" by (rule subset_trans)
      with a b show ?thesis by (simp add: er existsSync_def)
    qed
  qed
qed

text \<open>
  Claim C5, as amended. Whenever \<^verbatim>\<open>cloneRepo\<close> invokes \<^verbatim>\<open>git clone\<close> and the clone fails,
  and the removal of what the clone left at the target succeeds (or nothing was left),
  \<^verbatim>\<open>cloneRepo\<close> fails with the error that wraps the clone's error, nothing exists at the
  target path afterwards, and the merged store has no key that it did not have before.
\<close>

theorem cloneRepo_fetch_failure:
  assumes "parseGitHubUrl u = Some parsed"
    and "cloneRepo cm e u w = (res, w')"
    and "GitClone d u' p \<in> set (new_events w w')"
    and "rp = path_join [cloneDirectory (config cm), owner parsed, repo parsed]"
    and "clone_result e (cloneDepth (config cm)) (ParsedGitHubUrl.url parsed) rp = CloneFail left"
    and "left = None \<or> rm_ok e rp"
  shows "res = Inl (FailedToClone (ParsedGitHubUrl.key parsed)
                     (GitCloneFailed (ParsedGitHubUrl.url parsed)))
         \<and> \<not> existsSync w' rp
         \<and> key ` set (load (metadata cm) w') \<subseteq> key ` set (load (metadata cm) w)"
proof -
  let ?K = "ParsedGitHubUrl.key parsed"
  note aux = cloneRepo_fetch_failure_aux[OF _ _ assms(4,5,6)]
  have nf: False if "evolves eviction_event w w'"
    using eviction_no_fetch[OF that] assms(3) by blast
  show ?thesis
  proof (cases "validateGitHubNames (owner parsed) (repo parsed)")
    case False
    with assms(1,2) have "w' = w" by (simp add: cloneRepo_def)
    with nf show ?thesis by (simp add: evolves_refl)
  next
    case True
    show ?thesis
    proof (cases "findByKey (metadata cm) ?K w")
      case None
      with assms(1,2) True have "cloneRepo_fetch cm e parsed w = (res, w')"
        by (simp add: cloneRepo_def)
      from aux[OF this assms(3)] show ?thesis .
    next
      case (Some existing)
      show ?thesis
      proof (cases "validateClone w (path existing)")
        case v: True
        with assms(1,2) True Some have "evolves eviction_event w w'"
          by (auto simp: cloneRepo_def io_bind_def io_return_def split: prod.splits sum.splits
              dest!: updateLastAccessed_evolves)
        with nf show ?thesis by blast
      next
        case v: False
        obtain r1 w1 where 1: "deleteRepo cm e ?K w = (r1, w1)" by (cases "deleteRepo cm e ?K w")
        note e1 = deleteRepo_evolves[OF 1]
        show ?thesis
        proof (cases r1)
          case (Inl a)
          with assms(1,2) True Some v 1 have "w' = w1" by (simp add: cloneRepo_def io_bind_def)
          with nf e1 show ?thesis by blast
        next
          case (Inr b)
          with assms(1,2) True Some v 1 have 2: "cloneRepo_fetch cm e parsed w1 = (res, w')"
            by (simp add: cloneRepo_def io_bind_def)
          have "GitClone d u' p \<in> set (new_events w1 w')"
            using fetch_in_second[OF e1 cloneRepo_fetch_evolves[OF 2] assms(3)] .
          from deleteRepo_shrinks[OF 1]
          have "key ` set (load (metadata cm) w1) \<subseteq> key ` set (load (metadata cm) w)"
            by (simp add: shrinks_def)
          with aux[OF 2 \<open>GitClone d u' p \<in> set (new_events w1 w')\<close>] show ?thesis by blast
        qed
      qed
    qed
  qed
qed

lemma fetch_fails_eval:
  "fst (cloneRepo (ex_manager 5 True)
     ((ex_env 5 ex_artifact)\<lparr>clone_result := \<lambda>_ _ _. CloneFail (Some ex_bare_artifact)\<rparr>)
     ''o/b'' ex_empty) =
     Inl (FailedToClone ''o/b'' (GitCloneFailed ''https://github.com/o/b.git''))"
  "trace (snd (cloneRepo (ex_manager 5 True)
     ((ex_env 5 ex_artifact)\<lparr>clone_result := \<lambda>_ _ _. CloneFail (Some ex_bare_artifact)\<rparr>)
     ''o/b'' ex_empty)) =
     [GitClone 1 ''https://github.com/o/b.git'' ''/c/o/b'', RmRf ''/c/o/b'']"
  by (simp_all add: parse_o_b valid_o mk_parsed_def store_eval manager_eval example_eval)

theorem cloneRepo_fetch_failure_witness:
  "parseGitHubUrl ''o/b'' = Some (mk_parsed ''o'' ''b'')
   \<and> fst (cloneRepo (ex_manager 5 True)
       ((ex_env 5 ex_artifact)\<lparr>clone_result := \<lambda>_ _ _. CloneFail (Some ex_bare_artifact)\<rparr>)
       ''o/b'' ex_empty) =
     Inl (FailedToClone ''o/b'' (GitCloneFailed ''https://github.com/o/b.git''))
   \<and> new_events ex_empty
       (snd (cloneRepo (ex_manager 5 True)
         ((ex_env 5 ex_artifact)\<lparr>clone_result := \<lambda>_ _ _. CloneFail (Some ex_bare_artifact)\<rparr>)
         ''o/b'' ex_empty)) =
       [GitClone 1 ''https://github.com/o/b.git'' ''/c/o/b'', RmRf ''/c/o/b'']
   \<and> \<not> existsSync
        (snd (cloneRepo (ex_manager 5 True)
          ((ex_env 5 ex_artifact)\<lparr>clone_result := \<lambda>_ _ _. CloneFail (Some ex_bare_artifact)\<rparr>)
          ''o/b'' ex_empty))
        ''/c/o/b''
   \<and> key ` set (load (metadata (ex_manager 5 True))
        (snd (cloneRepo (ex_manager 5 True)
          ((ex_env 5 ex_artifact)\<lparr>clone_result := \<lambda>_ _ _. CloneFail (Some ex_bare_artifact)\<rparr>)
          ''o/b'' ex_empty)))
       \<subseteq> key ` set (load (metadata (ex_manager 5 True)) ex_empty)"
proof -
  let ?e = "(ex_env 5 ex_artifact)\<lparr>clone_result := \<lambda>_ _ _. CloneFail (Some ex_bare_artifact)\<rparr>"
  let ?res = "fst (cloneRepo (ex_manager 5 True) ?e ''o/b'' ex_empty)"
  let ?w' = "snd (cloneRepo (ex_manager 5 True) ?e ''o/b'' ex_empty)"
  have t0: "trace ex_empty = []" by (simp add: ex_empty_def ex_world_def)
  have n: "new_events ex_empty ?w' = [GitClone 1 ''https://github.com/o/b.git'' ''/c/o/b'', RmRf ''/c/o/b'']"
    by (simp add: new_events_def t0 fetch_fails_eval(2))
  then have g: "GitClone 1 ''https://github.com/o/b.git'' ''/c/o/b'' \<in> set (new_events ex_empty ?w')"
    by simp
  have rp: "''/c/o/b'' = path_join [cloneDirectory (config (ex_manager 5 True)),
                                   owner (mk_parsed ''o'' ''b''), repo (mk_parsed ''o'' ''b'')]"
    by (simp add: ex_manager_def ex_config_def mk_parsed_def)
  have c: "clone_result ?e (cloneDepth (config (ex_manager 5 True)))
             (ParsedGitHubUrl.url (mk_parsed ''o'' ''b'')) ''/c/o/b'' = CloneFail (Some ex_bare_artifact)"
    by (simp add: ex_env_def)
  have l: "Some ex_bare_artifact = None \<or> rm_ok ?e ''/c/o/b''" by (simp add: ex_env_def)
  have d: "cloneRepo (ex_manager 5 True) ?e ''o/b'' ex_empty = (?res, ?w')" by simp
  from cloneRepo_fetch_failure[OF parse_o_b d g rp c l]
  have "\<not> existsSync ?w' ''/c/o/b''
        \<and> key ` set (load (metadata (ex_manager 5 True)) ?w')
            \<subseteq> key ` set (load (metadata (ex_manager 5 True)) ex_empty)" by blast
  with parse_o_b fetch_fails_eval(1) n show ?thesis by blast
qed

text \<open>
  Claim C5 as stated fails when the clean-up fails too: the clone fails and leaves a
  partial directory, \<^verbatim>\<open>rm -rf\<close> on it fails inside the \<^verbatim>\<open>catch\<close> handler, and \<^verbatim>\<open>cloneRepo\<close>
  ends with the removal's error, not the wrapped clone error, and with the partial
  directory still at the target path.
\<close>

theorem cloneRepo_cleanup_failure_counterexample:
  "clone_result
     ((ex_env 5 ex_artifact)\<lparr>rm_ok := \<lambda>_. False,
        clone_result := \<lambda>_ _ _. CloneFail (Some ex_bare_artifact)\<rparr>)
     1 ''https://github.com/o/b.git'' ''/c/o/b'' = CloneFail (Some ex_bare_artifact)
   \<and> fst (cloneRepo (ex_manager 5 True)
       ((ex_env 5 ex_artifact)\<lparr>rm_ok := \<lambda>_. False,
          clone_result := \<lambda>_ _ _. CloneFail (Some ex_bare_artifact)\<rparr>)
       ''o/b'' ex_empty) = Inl (RmFailed ''/c/o/b'')
   \<and> trace (snd (cloneRepo (ex_manager 5 True)
       ((ex_env 5 ex_artifact)\<lparr>rm_ok := \<lambda>_. False,
          clone_result := \<lambda>_ _ _. CloneFail (Some ex_bare_artifact)\<rparr>)
       ''o/b'' ex_empty)) =
       [GitClone 1 ''https://github.com/o/b.git'' ''/c/o/b'', RmRf ''/c/o/b'']
   \<and> existsSync
       (snd (cloneRepo (ex_manager 5 True)
       ((ex_env 5 ex_artifact)\<lparr>rm_ok := \<lambda>_. False,
          clone_result := \<lambda>_ _ _. CloneFail (Some ex_bare_artifact)\<rparr>)
       ''o/b'' ex_empty)) ''/c/o/b''"
  by (simp add: parse_o_b valid_o mk_parsed_def store_eval manager_eval example_eval)

subsection \<open>The project file under the lifecycle operations\<close>







lemma grows_project_kept: "grows w w' \<Longrightarrow> project_kept m w w'"
  by (simp add: grows_def project_kept_def)











subsection \<open>The entry found after an upsert\<close>




lemma loadFromPath_project_cong:
  "project_file w' = project_file w \<Longrightarrow> loadFromPath ProjectFile w' = loadFromPath ProjectFile w"
  by (simp add: loadFromPath_def read_file_def)

lemma findByKey_project_entry:
  assumes "projectMetadataPath m \<noteq> None"
    and "find (\<lambda>x. key x = k) (rev (loadFromPath ProjectFile w)) = Some pr"
    and "project_file w' = project_file w"
  shows "findByKey m k w' = Some pr"
  using assms(1,2) by (simp add: findByKey_project loadFromPath_project_cong[OF assms(3)])

subsection \<open>The paths through cloneRepo\<close>















subsection \<open>Records held by the project file\<close>

text \<open>
  Claim C1, on a store whose only record is held by the project file. The capacity is one
  and the merged store has one entry. \<^verbatim>\<open>cloneRepo\<close> for another repository evicts that
  entry: it removes the clone and writes the global file without the record. The project
  file still has the record, so the merged store has two entries after the call, one more
  than the capacity, and the evicted record has lost its clone. With the same record held
  by the global file instead, the same call leaves one entry, the new one.
\<close>

theorem capacity_exceeded_with_project_record:
  "maxClonedRepos (config (ex_manager 1 True)) = 1
   \<and> load (metadata (ex_manager 1 True)) ex_project_a = [ex_entry ''o/a'' ''/c/o/a'' 1]
   \<and> fst (cloneRepo (ex_manager 1 True) (ex_env 5 ex_artifact) ''o/b'' ex_project_a) = Inr ''/c/o/b''
   \<and> new_events ex_project_a
        (snd (cloneRepo (ex_manager 1 True) (ex_env 5 ex_artifact) ''o/b'' ex_project_a)) =
       [RmRf ''/c/o/a'', WriteFile GlobalFile [],
        GitClone 1 ''https://github.com/o/b.git'' ''/c/o/b'',
        WriteFile GlobalFile [ex_entry ''o/a'' ''/c/o/a'' 1, ex_entry ''o/b'' ''/c/o/b'' 5]]
   \<and> load (metadata (ex_manager 1 True))
        (snd (cloneRepo (ex_manager 1 True) (ex_env 5 ex_artifact) ''o/b'' ex_project_a)) =
       [ex_entry ''o/a'' ''/c/o/a'' 1, ex_entry ''o/b'' ''/c/o/b'' 5]
   \<and> \<not> existsSync (snd (cloneRepo (ex_manager 1 True) (ex_env 5 ex_artifact) ''o/b'' ex_project_a))
        ''/c/o/a''
   \<and> load (metadata (ex_manager 1 True)) ex_global_a = [ex_entry ''o/a'' ''/c/o/a'' 1]
   \<and> load (metadata (ex_manager 1 True))
        (snd (cloneRepo (ex_manager 1 True) (ex_env 5 ex_artifact) ''o/b'' ex_global_a)) =
       [ex_entry ''o/b'' ''/c/o/b'' 5]"
  by (simp add: parse_o_b valid_o mk_parsed_def store_eval manager_eval example_eval new_events_def)

text \<open>
  Claim C3, on a store whose only record is held by the project file. \<^verbatim>\<open>cleanupLRU(1)\<close>
  succeeds, removes the clone of the least recently used entry and writes the global file
  without its record, and the merged store is what it was: the entry has not been
  removed. With the same record held by the global file instead, the same call leaves the
  merged store empty.
\<close>

theorem cleanupLRU_keeps_project_record:
  "load (metadata (ex_manager 1 True)) ex_project_a = [ex_entry ''o/a'' ''/c/o/a'' 1]
   \<and> fst (cleanupLRU (ex_manager 1 True) (ex_env 5 ex_artifact) 1 ex_project_a) = Inr ()
   \<and> new_events ex_project_a
        (snd (cleanupLRU (ex_manager 1 True) (ex_env 5 ex_artifact) 1 ex_project_a)) =
       [RmRf ''/c/o/a'', WriteFile GlobalFile []]
   \<and> load (metadata (ex_manager 1 True))
        (snd (cleanupLRU (ex_manager 1 True) (ex_env 5 ex_artifact) 1 ex_project_a)) =
       [ex_entry ''o/a'' ''/c/o/a'' 1]
   \<and> \<not> existsSync (snd (cleanupLRU (ex_manager 1 True) (ex_env 5 ex_artifact) 1 ex_project_a))
        ''/c/o/a''
   \<and> load (metadata (ex_manager 1 True)) ex_global_a = [ex_entry ''o/a'' ''/c/o/a'' 1]
   \<and> load (metadata (ex_manager 1 True))
        (snd (cleanupLRU (ex_manager 1 True) (ex_env 5 ex_artifact) 1 ex_global_a)) = []"
  by (simp add: store_eval manager_eval example_eval new_events_def)

text \<open>
  Claim C6, on a store whose project file holds a record for \<^verbatim>\<open>o/a\<close> with a path where
  nothing exists. \<^verbatim>\<open>cloneRepo\<close> for \<^verbatim>\<open>o/a\<close> does not fail and clones afresh, to another
  path, and the store has one entry for the key afterwards; but that entry is still the
  stale record, pointing at the path where nothing exists, not the record of the fresh
  clone. With the same stale record held by the global file instead, the entry after the
  call is the record of the fresh clone.
\<close>

theorem stale_project_record_survives:
  "findByKey (metadata (ex_manager 5 True)) ''o/a'' ex_project_stale =
     Some (ex_entry ''o/a'' ''/old/o/a'' 1)
   \<and> \<not> validateClone ex_project_stale ''/old/o/a''
   \<and> fst (cloneRepo (ex_manager 5 True) (ex_env 5 ex_artifact) ''o/a'' ex_project_stale) = Inr ''/c/o/a''
   \<and> new_events ex_project_stale
        (snd (cloneRepo (ex_manager 5 True) (ex_env 5 ex_artifact) ''o/a'' ex_project_stale)) =
       [WriteFile GlobalFile [],
        GitClone 1 ''https://github.com/o/a.git'' ''/c/o/a'',
        WriteFile GlobalFile [ex_entry ''o/a'' ''/c/o/a'' 5]]
   \<and> load (metadata (ex_manager 5 True))
        (snd (cloneRepo (ex_manager 5 True) (ex_env 5 ex_artifact) ''o/a'' ex_project_stale)) =
       [ex_entry ''o/a'' ''/old/o/a'' 1]
   \<and> \<not> validateClone
         (snd (cloneRepo (ex_manager 5 True) (ex_env 5 ex_artifact) ''o/a'' ex_project_stale))
         ''/old/o/a''
   \<and> findByKey (metadata (ex_manager 5 True)) ''o/a'' ex_global_stale =
        Some (ex_entry ''o/a'' ''/old/o/a'' 1)
   \<and> load (metadata (ex_manager 5 True))
        (snd (cloneRepo (ex_manager 5 True) (ex_env 5 ex_artifact) ''o/a'' ex_global_stale)) =
       [ex_entry ''o/a'' ''/c/o/a'' 5]"
  by (simp add: parse_o_a valid_o mk_parsed_def store_eval manager_eval example_eval new_events_def
      ex_global_stale_def)

subsection \<open>Lifecycle operations as runs of steps\<close>

lemma run_Nil [simp]: "run m [] w = w"
  by (simp add: run_def)


lemma run_single [simp]: "run m [a] w = act m a w"
  by (simp add: run_def)




















subsection \<open>What the lifecycle manager writes\<close>











lemma join_nested [simp]:
  "path_join [''/w'', ''acme''] = ''/w/acme''"
  "path_join [''/w'', ''acme'', ''.opencode''] = ''/w/acme/.opencode''"
  by (simp_all add: path_join_def normalize_def)

lemma resolve_nested [simp]:
  "resolve ''/w/acme/.opencode'' = ''/w/acme/.opencode''"
  "resolve ''/w/acme/.opencode/github-explorer-metadata.json'' =
     ''/w/acme/.opencode/github-explorer-metadata.json''"
  "resolve ''/w/o/a'' = ''/w/o/a''"
  by (simp_all add: resolve_def normalize_def)


end
